theory Spec2Isabelle
  imports Main "HOL-Library.Word"
begin

section \<open>Data model\<close>

text \<open>
  The encryption core of the repository is the TypeScript of the implementation guide:
  the classes \<^verbatim>\<open>CryptoPrimitives\<close>, \<^verbatim>\<open>X3DHKeyAgreement\<close>, \<^verbatim>\<open>DoubleRatchet\<close> and
  \<^verbatim>\<open>KeyManagementService\<close>.

  An \<^verbatim>\<open>ArrayBuffer\<close> is a list of bytes. The counters are JavaScript numbers that only
  ever hold non-negative integers; they are natural numbers here.
\<close>

type_synonym bytes = "8 word list"

datatype error =
    CryptoError
  | KeyNotExtractable
  | AuthenticationFailure
  | SkippedTooMany
  | SessionNotFound
  | SignedPreKeyNotFound
  | IdentityKeyMissing

text \<open>
  A \<^verbatim>\<open>CryptoKey\<close> that \<^verbatim>\<open>importKey\<close> made is its raw key material together with the
  \<^verbatim>\<open>extractable\<close> flag it was imported with. Every key pair of the program is made by
  \<^verbatim>\<open>generateKeyPair\<close>, which asks for extractable keys; a key pair is the raw material of
  its two keys, and the export of its public key returns that material.
\<close>

record CryptoKey =
  keyData :: bytes
  extractable :: bool

record CryptoKeyPair =
  privateKey :: bytes
  publicKey :: bytes

text \<open>
  The Web Crypto operations and the text codec that \<^verbatim>\<open>CryptoPrimitives\<close> wraps are not
  code of the repository: they are the parameters of the model. \<open>validX25519\<close> says
  whether \<^verbatim>\<open>importKey('raw', k, 'X25519', ...)\<close> accepts \<open>k\<close>; \<open>aesGcmOpen\<close> returns
  \<open>None\<close> when the tag does not verify. The other operations are taken to return a
  value for every input. Key generation and the nonce are drawn from the random source;
  every function that draws takes the drawn value as an argument.
\<close>

record platform =
  validX25519 :: "bytes \<Rightarrow> bool"
  x25519 :: "bytes \<Rightarrow> bytes \<Rightarrow> bytes"
  hkdfSha256 :: "bytes \<Rightarrow> bytes \<Rightarrow> bytes \<Rightarrow> nat \<Rightarrow> bytes"
  hmacSha256 :: "bytes \<Rightarrow> bytes \<Rightarrow> bytes"
  aesGcmSeal :: "bytes \<Rightarrow> bytes \<Rightarrow> bytes option \<Rightarrow> bytes \<Rightarrow> bytes"
  aesGcmOpen :: "bytes \<Rightarrow> bytes \<Rightarrow> bytes option \<Rightarrow> bytes \<Rightarrow> bytes option"
  utf8Encode :: "string \<Rightarrow> bytes"
  utf8Decode :: "bytes \<Rightarrow> string"

record RatchetState =
  rootKey :: bytes
  chainKeySend :: bytes
  chainKeyRecv :: bytes
  dhSend :: CryptoKeyPair
  dhRecv :: "CryptoKey option"
  pn :: nat
  ns :: nat
  nr :: nat
  skippedKeys :: "string \<rightharpoonup> bytes"

record MessageHeader =
  hdr_dhPublicKey :: bytes
  hdr_pn :: nat
  hdr_n :: nat

record EncryptedMessage =
  header :: MessageHeader
  ciphertext :: bytes
  iv :: bytes

record PreKeyBundle =
  identityKey :: bytes
  signedPreKey :: bytes
  signedPreKeySignature :: bytes
  oneTimePreKey :: "bytes option"

record ConversationSession =
  conversationId :: string
  ratchet :: RatchetState
  createdAt :: nat
  lastUsed :: nat

record KeyManagementService =
  sessions :: "string \<rightharpoonup> ConversationSession"
  identityKeyPair :: "CryptoKeyPair option"
  preKeys :: "string \<rightharpoonup> CryptoKeyPair"
  oneTimePreKeys :: "string \<rightharpoonup> CryptoKeyPair"

section \<open>Import and export of keys\<close>

text \<open>
  \<^verbatim>\<open>crypto.subtle.importKey('raw', raw, 'X25519', extractable, usages)\<close> and
  \<^verbatim>\<open>crypto.subtle.exportKey('raw', key)\<close>. The export of a key that is not extractable
  throws.
\<close>

definition importKey :: "platform \<Rightarrow> bytes \<Rightarrow> bool \<Rightarrow> error + CryptoKey" where
  "importKey c raw ext =
     (if validX25519 c raw then Inr \<lparr> keyData = raw, extractable = ext \<rparr> else Inl CryptoError)"

definition exportKey :: "CryptoKey \<Rightarrow> error + bytes" where
  "exportKey key = (if extractable key then Inr (keyData key) else Inl KeyNotExtractable)"

section \<open>CryptoPrimitives\<close>

definition deriveSharedSecret :: "platform \<Rightarrow> bytes \<Rightarrow> CryptoKey \<Rightarrow> bytes" where
  "deriveSharedSecret c priv pub = x25519 c priv (keyData pub)"

definition hkdf :: "platform \<Rightarrow> bytes \<Rightarrow> bytes \<Rightarrow> bytes \<Rightarrow> nat \<Rightarrow> bytes" where
  "hkdf c inputKeyMaterial salt info len = hkdfSha256 c inputKeyMaterial salt info len"

text \<open>\<open>encryptAESGCM\<close> returns the ciphertext together with the nonce it drew.\<close>

definition encryptAESGCM ::
  "platform \<Rightarrow> bytes \<Rightarrow> bytes \<Rightarrow> bytes \<Rightarrow> bytes option \<Rightarrow> bytes \<times> bytes" where
  "encryptAESGCM c nonce key plaintext associatedData =
     (aesGcmSeal c key nonce associatedData plaintext, nonce)"

definition decryptAESGCM ::
  "platform \<Rightarrow> bytes \<Rightarrow> bytes \<Rightarrow> bytes \<Rightarrow> bytes option \<Rightarrow> error + bytes" where
  "decryptAESGCM c key ct nonce associatedData =
     (case aesGcmOpen c key nonce associatedData ct of
        None \<Rightarrow> Inl AuthenticationFailure
      | Some plaintext \<Rightarrow> Inr plaintext)"

definition hmac :: "platform \<Rightarrow> bytes \<Rightarrow> bytes \<Rightarrow> bytes" where
  "hmac c key msg = hmacSha256 c key msg"

text \<open>\<^verbatim>\<open>new ArrayBuffer(32)\<close>: thirty-two zero bytes.\<close>

definition zeroBuffer32 :: bytes where
  "zeroBuffer32 = replicate 32 0"

text \<open>\<^verbatim>\<open>buf.slice(a, b)\<close> for \<open>0 \<le> a \<le> b\<close>: both ends are clamped to the length.\<close>

definition slice :: "nat \<Rightarrow> nat \<Rightarrow> bytes \<Rightarrow> bytes" where
  "slice a b buf = take (b - a) (drop a buf)"

section \<open>DoubleRatchet\<close>

definition MAX_SKIP :: nat where
  "MAX_SKIP = 1000"

text \<open>The template literal \<^verbatim>\<open>`${n}`\<close> of a non-negative integer: its decimal digits.\<close>

fun numToString :: "nat \<Rightarrow> string" where
  "numToString k =
     (if k < 10 then [char_of (48 + k)]
      else numToString (k div 10) @ [char_of (48 + k mod 10)])"

definition deriveRootChainKeys :: "platform \<Rightarrow> bytes \<Rightarrow> bytes \<Rightarrow> bytes \<times> bytes" where
  "deriveRootChainKeys c rk dhOutput =
     (let derived = hkdf c dhOutput rk (utf8Encode c ''BuddyHunt Root Chain'') 64
      in (slice 0 32 derived, slice 32 64 derived))"

text \<open>\<open>deriveMessageKey\<close> returns the pair (messageKey, nextChainKey).\<close>

definition deriveMessageKey :: "platform \<Rightarrow> bytes \<Rightarrow> bytes \<times> bytes" where
  "deriveMessageKey c chainKey =
     (hmac c chainKey (utf8Encode c ''MESSAGE_KEY_SEED''),
      hmac c chainKey (utf8Encode c ''CHAIN_KEY_SEED''))"

text \<open>
  \<open>areKeysEqual\<close> exports both keys and compares the raw material: first the lengths,
  then byte by byte. An export that throws is caught, and the answer is then \<open>False\<close>.
\<close>

definition areKeysEqual :: "CryptoKey \<Rightarrow> CryptoKey \<Rightarrow> bool" where
  "areKeysEqual key1 key2 =
     (case exportKey key1 of
        Inl _ \<Rightarrow> False
      | Inr raw1 \<Rightarrow>
          (case exportKey key2 of
             Inl _ \<Rightarrow> False
           | Inr raw2 \<Rightarrow>
               (if length raw1 \<noteq> length raw2 then False else list_all2 (=) raw1 raw2)))"

definition initializeAlice ::
  "platform \<Rightarrow> CryptoKeyPair \<Rightarrow> bytes \<Rightarrow> bytes \<Rightarrow> error + RatchetState" where
  "initializeAlice c generated sharedKey remotePublicKey =
     (case importKey c remotePublicKey False of
        Inl e \<Rightarrow> Inl e
      | Inr remote \<Rightarrow>
          (let (newRootKey, chainKey) =
                 deriveRootChainKeys c sharedKey
                   (deriveSharedSecret c (privateKey generated) remote)
           in Inr \<lparr> rootKey = newRootKey, chainKeySend = chainKey,
                     chainKeyRecv = zeroBuffer32, dhSend = generated,
                     dhRecv = Some remote, pn = 0, ns = 0, nr = 0,
                     skippedKeys = Map.empty \<rparr>))"

definition initializeBob :: "bytes \<Rightarrow> CryptoKeyPair \<Rightarrow> RatchetState" where
  "initializeBob sharedKey keyPair =
     \<lparr> rootKey = sharedKey, chainKeySend = zeroBuffer32, chainKeyRecv = zeroBuffer32,
       dhSend = keyPair, dhRecv = None, pn = 0, ns = 0, nr = 0,
       skippedKeys = Map.empty \<rparr>"

text \<open>\<open>encrypt\<close> returns the message and the state it leaves.\<close>

definition encrypt ::
  "platform \<Rightarrow> bytes \<Rightarrow> string \<Rightarrow> RatchetState \<Rightarrow> EncryptedMessage \<times> RatchetState" where
  "encrypt c nonce plaintext s =
     (let plaintextBytes = utf8Encode c plaintext;
          (messageKey, nextChainKey) = deriveMessageKey c (chainKeySend s);
          s1 = s\<lparr>chainKeySend := nextChainKey\<rparr>;
          (ct, nonce') = encryptAESGCM c nonce messageKey plaintextBytes None;
          message = \<lparr> header = \<lparr> hdr_dhPublicKey = publicKey (dhSend s1),
                                   hdr_pn = pn s1, hdr_n = ns s1 \<rparr>,
                      ciphertext = ct, iv = nonce' \<rparr>
      in (message, s1\<lparr>ns := ns s1 + 1\<rparr>))"

text \<open>The while loop of \<open>skipMessageKeys\<close>.\<close>

function skipLoop :: "platform \<Rightarrow> nat \<Rightarrow> RatchetState \<Rightarrow> RatchetState" where
  "skipLoop c until s =
     (if nr s < until then
        (let (messageKey, nextChainKey) = deriveMessageKey c (chainKeyRecv s);
             keyId = numToString (nr s)
         in skipLoop c until
              (s\<lparr>skippedKeys := (skippedKeys s)(keyId \<mapsto> messageKey),
                 chainKeyRecv := nextChainKey,
                 nr := nr s + 1\<rparr>))
      else s)"
  by pat_completeness auto
termination
  by (relation "measure (\<lambda>(c, until, s). until - nr s)") auto

text \<open>
  A function that can throw returns its result together with the state it leaves,
  since the source mutates the state in place and a throw does not undo it.
\<close>

definition skipMessageKeys ::
  "platform \<Rightarrow> nat \<Rightarrow> RatchetState \<Rightarrow> (error + unit) \<times> RatchetState" where
  "skipMessageKeys c until s =
     (if nr s + MAX_SKIP < until then (Inl SkippedTooMany, s)
      else (Inr (), skipLoop c until s))"

definition performDHRatchet ::
  "platform \<Rightarrow> CryptoKeyPair \<Rightarrow> CryptoKey \<Rightarrow> MessageHeader \<Rightarrow> RatchetState
     \<Rightarrow> (error + unit) \<times> RatchetState" where
  "performDHRatchet c generated remotePublicKey hdr s =
     (let s1 = s\<lparr>pn := ns s, ns := 0, nr := 0, dhRecv := Some remotePublicKey\<rparr>
      in case skipMessageKeys c (hdr_pn hdr) s1 of
           (Inl e, s2) \<Rightarrow> (Inl e, s2)
         | (Inr _, s2) \<Rightarrow>
             (let dhOutput = deriveSharedSecret c (privateKey (dhSend s2)) remotePublicKey;
                  (newRootKey, chainKey) = deriveRootChainKeys c (rootKey s2) dhOutput;
                  s3 = s2\<lparr>rootKey := newRootKey, chainKeyRecv := chainKey\<rparr>;
                  s4 = s3\<lparr>dhSend := generated\<rparr>;
                  dhOutputSend =
                    deriveSharedSecret c (privateKey (dhSend s4)) remotePublicKey;
                  (finalRootKey, sendChainKey) =
                    deriveRootChainKeys c (rootKey s4) dhOutputSend
              in (Inr (), s4\<lparr>rootKey := finalRootKey, chainKeySend := sendChainKey\<rparr>)))"

text \<open>The test that guards the DH ratchet step in \<open>decrypt\<close>.\<close>

definition needsRatchet :: "CryptoKey \<Rightarrow> RatchetState \<Rightarrow> bool" where
  "needsRatchet dhPublicKey s =
     (case dhRecv s of None \<Rightarrow> True | Some known \<Rightarrow> \<not> areKeysEqual dhPublicKey known)"

text \<open>
  \<open>resolveMessageKey\<close> is the part of \<open>decrypt\<close> before the AEAD call: import of the
  header's key, the DH ratchet step if needed, skipping, and the derivation of the
  message key with the advance of the receiving chain.
\<close>

definition resolveMessageKey ::
  "platform \<Rightarrow> CryptoKeyPair \<Rightarrow> EncryptedMessage \<Rightarrow> RatchetState
     \<Rightarrow> (error + bytes) \<times> RatchetState" where
  "resolveMessageKey c generated message s =
     (case importKey c (hdr_dhPublicKey (header message)) False of
        Inl e \<Rightarrow> (Inl e, s)
      | Inr dhPublicKey \<Rightarrow>
          (case (if needsRatchet dhPublicKey s
                 then performDHRatchet c generated dhPublicKey (header message) s
                 else (Inr (), s)) of
             (Inl e, s1) \<Rightarrow> (Inl e, s1)
           | (Inr _, s1) \<Rightarrow>
               (case skipMessageKeys c (hdr_n (header message)) s1 of
                  (Inl e, s2) \<Rightarrow> (Inl e, s2)
                | (Inr _, s2) \<Rightarrow>
                    (let (messageKey, nextChainKey) = deriveMessageKey c (chainKeyRecv s2)
                     in (Inr messageKey,
                         s2\<lparr>chainKeyRecv := nextChainKey, nr := nr s2 + 1\<rparr>)))))"

definition decrypt ::
  "platform \<Rightarrow> CryptoKeyPair \<Rightarrow> EncryptedMessage \<Rightarrow> RatchetState
     \<Rightarrow> (error + string) \<times> RatchetState" where
  "decrypt c generated message s =
     (case resolveMessageKey c generated message s of
        (Inl e, s') \<Rightarrow> (Inl e, s')
      | (Inr messageKey, s') \<Rightarrow>
          (case decryptAESGCM c messageKey (ciphertext message) (iv message) None of
             Inl e \<Rightarrow> (Inl e, s')
           | Inr plaintext \<Rightarrow> (Inr (utf8Decode c plaintext), s')))"

section \<open>X3DHKeyAgreement\<close>

text \<open>
  \<open>performX3DH\<close> is the initiator's side. The bundle's one-time prekey is optional; an
  \<^verbatim>\<open>ArrayBuffer\<close> is truthy whatever its length, so only its absence skips the fourth
  Diffie-Hellman operation.
\<close>

definition performX3DH ::
  "platform \<Rightarrow> CryptoKeyPair \<Rightarrow> CryptoKeyPair \<Rightarrow> PreKeyBundle \<Rightarrow> error + bytes" where
  "performX3DH c identityKP ephemeralKP remotePreKeyBundle =
     (case importKey c (identityKey remotePreKeyBundle) False of
        Inl e \<Rightarrow> Inl e
      | Inr remoteIdentityKey \<Rightarrow>
     (case importKey c (signedPreKey remotePreKeyBundle) False of
        Inl e \<Rightarrow> Inl e
      | Inr remoteSignedPreKey \<Rightarrow>
     (case (case oneTimePreKey remotePreKeyBundle of
              None \<Rightarrow> Inr None
            | Some raw \<Rightarrow>
                (case importKey c raw False of Inl e \<Rightarrow> Inl e | Inr k \<Rightarrow> Inr (Some k))) of
        Inl e \<Rightarrow> Inl e
      | Inr remoteOneTimePreKey \<Rightarrow>
          (let dh1 = deriveSharedSecret c (privateKey identityKP) remoteSignedPreKey;
               dh2 = deriveSharedSecret c (privateKey ephemeralKP) remoteIdentityKey;
               dh3 = deriveSharedSecret c (privateKey ephemeralKP) remoteSignedPreKey;
               sharedSecrets = dh1 @ dh2 @ dh3;
               sharedSecrets' =
                 (case remoteOneTimePreKey of
                    None \<Rightarrow> sharedSecrets
                  | Some otk \<Rightarrow>
                      sharedSecrets @ deriveSharedSecret c (privateKey ephemeralKP) otk)
           in Inr (hkdf c sharedSecrets' zeroBuffer32
                     (utf8Encode c ''BuddyHunt X3DH'') 32)))))"

section \<open>KeyManagementService\<close>

text \<open>
  \<open>acceptConversation\<close> is the responder's side. The directory's answer to
  \<^verbatim>\<open>fetchIdentityKey\<close>, the fresh conversation handle and the current time come from
  outside and are arguments. An optional string is falsy when it is absent or empty.
\<close>

definition truthyId :: "string option \<Rightarrow> bool" where
  "truthyId i = (case i of None \<Rightarrow> False | Some x \<Rightarrow> x \<noteq> [])"

definition acceptConversation ::
  "platform \<Rightarrow> (string \<Rightarrow> bytes) \<Rightarrow> string \<Rightarrow> nat \<Rightarrow> string \<Rightarrow> bytes \<Rightarrow> string
     \<Rightarrow> string option \<Rightarrow> KeyManagementService
     \<Rightarrow> (error + string) \<times> KeyManagementService" where
  "acceptConversation c fetchIdentityKey newId now senderUserId ephemeralPublicKey
       signedPreKeyId oneTimePreKeyId kms =
     (let signedPreKeyPair = preKeys kms signedPreKeyId;
          oneTimePreKeyPair =
            (case oneTimePreKeyId of
               None \<Rightarrow> None
             | Some i \<Rightarrow> if truthyId oneTimePreKeyId then oneTimePreKeys kms i else None)
      in case signedPreKeyPair of
           None \<Rightarrow> (Inl SignedPreKeyNotFound, kms)
         | Some spk \<Rightarrow>
             (let kms1 =
                    (case oneTimePreKeyId of
                       None \<Rightarrow> kms
                     | Some i \<Rightarrow>
                         if truthyId oneTimePreKeyId
                         then kms\<lparr>oneTimePreKeys := (oneTimePreKeys kms)(i := None)\<rparr>
                         else kms);
                  senderIdentityKey = fetchIdentityKey senderUserId
              in case importKey c ephemeralPublicKey False of
                   Inl e \<Rightarrow> (Inl e, kms1)
                 | Inr ephemeralKey \<Rightarrow>
                (case importKey c senderIdentityKey False of
                   Inl e \<Rightarrow> (Inl e, kms1)
                 | Inr senderKey \<Rightarrow>
                (let dh1 = deriveSharedSecret c (privateKey spk) senderKey
                 in case identityKeyPair kms1 of
                      None \<Rightarrow> (Inl IdentityKeyMissing, kms1)
                    | Some ownIdentity \<Rightarrow>
                        (let dh2 = deriveSharedSecret c (privateKey ownIdentity) ephemeralKey;
                             dh3 = deriveSharedSecret c (privateKey spk) ephemeralKey;
                             sharedSecrets = dh1 @ dh2 @ dh3;
                             sharedSecrets' =
                               (case oneTimePreKeyPair of
                                  None \<Rightarrow> sharedSecrets
                                | Some otk \<Rightarrow>
                                    sharedSecrets
                                    @ deriveSharedSecret c (privateKey otk) ephemeralKey);
                             sharedKey = hkdf c sharedSecrets' zeroBuffer32
                                           (utf8Encode c ''BuddyHunt X3DH'') 32;
                             r = initializeBob sharedKey spk
                         in (Inr newId,
                             kms1\<lparr>sessions := (sessions kms1)(newId \<mapsto>
                                     \<lparr> conversationId = newId, ratchet = r,
                                       createdAt = now, lastUsed = now \<rparr>)\<rparr>))))))"

text \<open>
  The session object is mutated in place, so the registry holds the new timestamp and
  the ratchet state that \<open>encrypt\<close> or \<open>decrypt\<close> left, also when \<open>decrypt\<close> threw.
\<close>

definition encryptMessage ::
  "platform \<Rightarrow> nat \<Rightarrow> bytes \<Rightarrow> string \<Rightarrow> string \<Rightarrow> KeyManagementService
     \<Rightarrow> (error + EncryptedMessage) \<times> KeyManagementService" where
  "encryptMessage c now nonce handle plaintext kms =
     (case sessions kms handle of
        None \<Rightarrow> (Inl SessionNotFound, kms)
      | Some session \<Rightarrow>
          (let session1 = session\<lparr>lastUsed := now\<rparr>;
               (message, r) = encrypt c nonce plaintext (ratchet session1)
           in (Inr message,
               kms\<lparr>sessions := (sessions kms)(handle \<mapsto> session1\<lparr>ratchet := r\<rparr>)\<rparr>)))"

definition decryptMessage ::
  "platform \<Rightarrow> nat \<Rightarrow> CryptoKeyPair \<Rightarrow> string \<Rightarrow> EncryptedMessage \<Rightarrow> KeyManagementService
     \<Rightarrow> (error + string) \<times> KeyManagementService" where
  "decryptMessage c now generated handle encryptedMessage kms =
     (case sessions kms handle of
        None \<Rightarrow> (Inl SessionNotFound, kms)
      | Some session \<Rightarrow>
          (let session1 = session\<lparr>lastUsed := now\<rparr>;
               (res, r) = decrypt c generated encryptedMessage (ratchet session1)
           in (res,
               kms\<lparr>sessions := (sessions kms)(handle \<mapsto> session1\<lparr>ratchet := r\<rparr>)\<rparr>)))"

section \<open>Auxiliary definitions for the statements\<close>

text \<open>
  The symmetric ratchet: \<open>chainKeyAt c ck k\<close> is the chain key \<open>k\<close> steps after \<open>ck\<close>,
  \<open>messageKeyAt c ck k\<close> the message key derived at that position. \<open>skipStep\<close> is one
  pass through the body of the loop of \<open>skipMessageKeys\<close>.
\<close>

definition nextChainKey :: "platform \<Rightarrow> bytes \<Rightarrow> bytes" where
  "nextChainKey c ck = snd (deriveMessageKey c ck)"

definition chainKeyAt :: "platform \<Rightarrow> bytes \<Rightarrow> nat \<Rightarrow> bytes" where
  "chainKeyAt c ck k = (nextChainKey c ^^ k) ck"

definition messageKeyAt :: "platform \<Rightarrow> bytes \<Rightarrow> nat \<Rightarrow> bytes" where
  "messageKeyAt c ck k = fst (deriveMessageKey c (chainKeyAt c ck k))"

definition skipStep :: "platform \<Rightarrow> RatchetState \<Rightarrow> RatchetState" where
  "skipStep c s =
     s\<lparr>skippedKeys := (skippedKeys s)(numToString (nr s) \<mapsto>
                         fst (deriveMessageKey c (chainKeyRecv s))),
       chainKeyRecv := nextChainKey c (chainKeyRecv s),
       nr := nr s + 1\<rparr>"

text \<open>
  \<open>importedKey raw\<close> is the key that the program's imports make of accepted raw material:
  all of them pass \<^verbatim>\<open>false\<close> for \<^verbatim>\<open>extractable\<close>. \<open>ratchetChain c s raw\<close> is the receiving
  chain key that the DH ratchet step derives in state \<open>s\<close> for the remote key \<open>raw\<close>, and
  \<open>ratchetRoot c g s raw\<close>, \<open>ratchetSendChain c g s raw\<close> are the root key and the sending
  chain key it derives with the fresh key pair \<open>g\<close>.
\<close>

definition importedKey :: "bytes \<Rightarrow> CryptoKey" where
  "importedKey raw = \<lparr> keyData = raw, extractable = False \<rparr>"

definition ratchetChain :: "platform \<Rightarrow> RatchetState \<Rightarrow> bytes \<Rightarrow> bytes" where
  "ratchetChain c s raw =
     snd (deriveRootChainKeys c (rootKey s)
            (deriveSharedSecret c (privateKey (dhSend s)) (importedKey raw)))"

definition ratchetRoot :: "platform \<Rightarrow> CryptoKeyPair \<Rightarrow> RatchetState \<Rightarrow> bytes \<Rightarrow> bytes" where
  "ratchetRoot c g s raw =
     fst (deriveRootChainKeys c
            (fst (deriveRootChainKeys c (rootKey s)
                    (deriveSharedSecret c (privateKey (dhSend s)) (importedKey raw))))
            (deriveSharedSecret c (privateKey g) (importedKey raw)))"

definition ratchetSendChain :: "platform \<Rightarrow> CryptoKeyPair \<Rightarrow> RatchetState \<Rightarrow> bytes \<Rightarrow> bytes" where
  "ratchetSendChain c g s raw =
     snd (deriveRootChainKeys c
            (fst (deriveRootChainKeys c (rootKey s)
                    (deriveSharedSecret c (privateKey (dhSend s)) (importedKey raw))))
            (deriveSharedSecret c (privateKey g) (importedKey raw)))"

text \<open>
  One message from a sender to a receiver, delivered at once: the sender encrypts, the
  receiver decrypts. \<open>sendMany k\<close> does so \<open>k\<close> times in a row.
\<close>

definition sendTo ::
  "platform \<Rightarrow> bytes \<Rightarrow> CryptoKeyPair \<Rightarrow> string \<Rightarrow> RatchetState \<times> RatchetState
     \<Rightarrow> (error + string) \<times> RatchetState \<times> RatchetState" where
  "sendTo c nonce generated plaintext pair =
     (let (message, sender') = encrypt c nonce plaintext (fst pair);
          (res, receiver') = decrypt c generated message (snd pair)
      in (res, sender', receiver'))"

fun sendMany ::
  "platform \<Rightarrow> bytes \<Rightarrow> CryptoKeyPair \<Rightarrow> string \<Rightarrow> nat \<Rightarrow> RatchetState \<times> RatchetState
     \<Rightarrow> RatchetState \<times> RatchetState" where
  "sendMany c nonce generated plaintext 0 pair = pair"
| "sendMany c nonce generated plaintext (Suc k) pair =
     sendMany c nonce generated plaintext k (snd (sendTo c nonce generated plaintext pair))"

text \<open>
  A small executable platform for concrete runs. Its Diffie-Hellman is multiplication
  of the first bytes, with public key three times the private key, so that both sides
  of a pairing agree; its AEAD prepends a tag that \<open>toyOpen\<close> checks.
\<close>

definition firstByte :: "bytes \<Rightarrow> 8 word" where
  "firstByte b = (case b of [] \<Rightarrow> 0 | x # _ \<Rightarrow> x)"

definition adTag :: "bytes option \<Rightarrow> 8 word" where
  "adTag ad = (case ad of None \<Rightarrow> 0 | Some a \<Rightarrow> 1 + sum_list a)"

definition toySeal :: "bytes \<Rightarrow> bytes \<Rightarrow> bytes option \<Rightarrow> bytes \<Rightarrow> bytes" where
  "toySeal key nonce ad pt =
     (7 * firstByte key + firstByte nonce + adTag ad + sum_list pt)
     # map (\<lambda>b. b + firstByte key) pt"

definition toyOpen :: "bytes \<Rightarrow> bytes \<Rightarrow> bytes option \<Rightarrow> bytes \<Rightarrow> bytes option" where
  "toyOpen key nonce ad ct =
     (case ct of
        [] \<Rightarrow> None
      | t # body \<Rightarrow>
          (let pt = map (\<lambda>b. b - firstByte key) body
           in if t = 7 * firstByte key + firstByte nonce + adTag ad + sum_list pt
              then Some pt else None))"

definition toyHkdf :: "bytes \<Rightarrow> bytes \<Rightarrow> bytes \<Rightarrow> nat \<Rightarrow> bytes" where
  "toyHkdf ikm salt info len =
     replicate (len div 2) (sum_list ikm + 3 * firstByte salt + of_nat (length info))
     @ replicate (len - len div 2) (5 * sum_list ikm + firstByte salt + 1)"

definition toyHmac :: "bytes \<Rightarrow> bytes \<Rightarrow> bytes" where
  "toyHmac key msg = replicate 32 (3 * firstByte key + of_nat (length msg))"

definition toyPlatform :: platform where
  "toyPlatform =
     \<lparr> validX25519 = (\<lambda>k. length k = 1),
       x25519 = (\<lambda>priv pub. [firstByte priv * firstByte pub]),
       hkdfSha256 = toyHkdf,
       hmacSha256 = toyHmac,
       aesGcmSeal = toySeal,
       aesGcmOpen = toyOpen,
       utf8Encode = map of_char,
       utf8Decode = map (\<lambda>w. char_of (unat w)) \<rparr>"

definition toyKeyPair :: "8 word \<Rightarrow> CryptoKeyPair" where
  "toyKeyPair x = \<lparr> privateKey = [x], publicKey = [3 * x] \<rparr>"

text \<open>
  The initiator's state right after \<open>initializeAlice\<close> on the small platform, with key
  pair \<open>toyKeyPair 5\<close>, shared secret \<open>replicate 32 9\<close> and the responder's public key
  \<open>[21]\<close> (that of \<open>toyKeyPair 7\<close>).
\<close>

definition toyAlice :: RatchetState where
  "toyAlice =
     \<lparr> rootKey = replicate 32 152, chainKeySend = replicate 32 23,
       chainKeyRecv = zeroBuffer32, dhSend = toyKeyPair 5, dhRecv = Some (importedKey [21]),
       pn = 0, ns = 0, nr = 0, skippedKeys = Map.empty \<rparr>"

text \<open>
  The responder's state right after \<open>initializeBob\<close> with the same secret, and a key
  management service that holds one session and the responder's keys.
\<close>

definition toyBob :: RatchetState where
  "toyBob = initializeBob (replicate 32 9) (toyKeyPair 7)"

definition toyKms :: KeyManagementService where
  "toyKms =
     \<lparr> sessions = [''c1'' \<mapsto> \<lparr> conversationId = ''c1'', ratchet = toyAlice,
                                  createdAt = 1, lastUsed = 1 \<rparr>],
       identityKeyPair = Some (toyKeyPair 2),
       preKeys = [''signed-1'' \<mapsto> toyKeyPair 7],
       oneTimePreKeys = [''onetime-0'' \<mapsto> toyKeyPair 13] \<rparr>"

text \<open>The pool lookup of \<open>acceptConversation\<close>.\<close>

definition poolKey :: "KeyManagementService \<Rightarrow> string option \<Rightarrow> CryptoKeyPair option" where
  "poolKey kms i = (case i of None \<Rightarrow> None | Some x \<Rightarrow> if x = [] then None else oneTimePreKeys kms x)"

text \<open>
  States of an exchange on the small platform. The initiator sends ``hi'' and the
  responder decrypts it (\<open>toyAlice1\<close>, \<open>toyBob1\<close>); the responder answers ``yo'' and the
  initiator decrypts it (\<open>toyBob2\<close>, \<open>toyAlice2\<close>). \<open>toyBobSkipped\<close> is the responder's
  fresh state after it has decrypted the initiator's second message before the first.
\<close>

definition toyAlice1 :: RatchetState where
  "toyAlice1 = toyAlice\<lparr>chainKeySend := replicate 32 83, ns := 1\<rparr>"

definition toyBob1 :: RatchetState where
  "toyBob1 =
     \<lparr> rootKey = replicate 32 129, chainKeySend = replicate 32 210,
       chainKeyRecv = replicate 32 83, dhSend = toyKeyPair 11, dhRecv = Some (importedKey [15]),
       pn = 0, ns = 0, nr = 1, skippedKeys = Map.empty \<rparr>"

definition toyBob2 :: RatchetState where
  "toyBob2 = toyBob1\<lparr>chainKeySend := replicate 32 132, ns := 1\<rparr>"

definition toyAlice2 :: RatchetState where
  "toyAlice2 =
     \<lparr> rootKey = replicate 32 200, chainKeySend = replicate 32 119,
       chainKeyRecv = replicate 32 132, dhSend = toyKeyPair 17, dhRecv = Some (importedKey [33]),
       pn = 1, ns = 0, nr = 1, skippedKeys = Map.empty \<rparr>"

definition toyBobSkipped :: RatchetState where
  "toyBobSkipped =
     \<lparr> rootKey = replicate 32 129, chainKeySend = replicate 32 210,
       chainKeyRecv = replicate 32 7, dhSend = toyKeyPair 11, dhRecv = Some (importedKey [15]),
       pn = 0, ns = 0, nr = 2, skippedKeys = [''0'' \<mapsto> replicate 32 85] \<rparr>"

text \<open>
  \<open>awaitsRatchet c y x\<close>: \<open>y\<close> has sent nothing under its ratchet key, and the DH ratchet
  step of \<open>x\<close> on that key will yield the root key and the sending chain of \<open>y\<close>.
\<close>

definition awaitsRatchet :: "platform \<Rightarrow> RatchetState \<Rightarrow> RatchetState \<Rightarrow> bool" where
  "awaitsRatchet c y x \<longleftrightarrow>
     ns y = 0 \<and> pn y \<le> MAX_SKIP \<and> ns x \<le> MAX_SKIP
     \<and> validX25519 c (publicKey (dhSend y))
     \<and> deriveRootChainKeys c (rootKey x)
           (x25519 c (privateKey (dhSend x)) (publicKey (dhSend y)))
         = (rootKey y, chainKeySend y)"

section \<open>Basic facts\<close>

declare skipLoop.simps [simp del] numToString.simps [simp del]

lemma chainKeyAt_0 [simp]: "chainKeyAt c ck 0 = ck"
  by (simp add: chainKeyAt_def)

lemma chainKeyAt_Suc: "chainKeyAt c ck (Suc k) = chainKeyAt c (nextChainKey c ck) k"
  by (simp add: chainKeyAt_def funpow_swap1)

lemma chainKeyAt_Suc_outer: "chainKeyAt c ck (Suc k) = nextChainKey c (chainKeyAt c ck k)"
  by (simp add: chainKeyAt_def)

lemma messageKeyAt_0: "messageKeyAt c ck 0 = fst (deriveMessageKey c ck)"
  by (simp add: messageKeyAt_def)

lemma messageKeyAt_Suc: "messageKeyAt c ck (Suc k) = messageKeyAt c (nextChainKey c ck) k"
  by (simp add: messageKeyAt_def chainKeyAt_Suc)

text \<open>
  \<open>areKeysEqual\<close> answers \<open>True\<close> only for two extractable keys. The keys that \<open>decrypt\<close>
  compares are imported with \<^verbatim>\<open>extractable = false\<close>, so the test that guards the DH
  ratchet step holds for every message.
\<close>

lemma areKeysEqual_iff:
  "areKeysEqual a b \<longleftrightarrow> extractable a \<and> extractable b \<and> keyData a = keyData b"
  by (auto simp: areKeysEqual_def exportKey_def list.rel_eq)

lemma importedKey_simps [simp]:
  "keyData (importedKey raw) = raw" "\<not> extractable (importedKey raw)"
  "importedKey a = importedKey b \<longleftrightarrow> a = b"
  by (simp_all add: importedKey_def)

lemma importKey_False:
  "importKey c raw False = (if validX25519 c raw then Inr (importedKey raw) else Inl CryptoError)"
  by (simp add: importKey_def importedKey_def)

lemma needsRatchet_importedKey [simp]: "needsRatchet (importedKey raw) s"
  by (simp add: needsRatchet_def areKeysEqual_iff split: option.splits)

lemma deriveSharedSecret_importedKey [simp]:
  "deriveSharedSecret c priv (importedKey raw) = x25519 c priv raw"
  by (simp add: deriveSharedSecret_def)

lemma numToString_nonempty: "numToString k \<noteq> []"
  by (subst numToString.simps) simp

lemma digit_char_inj:
  assumes "a < 10" and "b < 10" and e: "char_of (48 + a :: nat) = char_of (48 + b)"
  shows "a = b"
proof -
  from e have "(of_char (char_of (48 + a)) :: nat) = of_char (char_of (48 + b))" by simp
  then have "(48 + a) mod 256 = (48 + b) mod 256" by simp
  with assms(1,2) show "a = b" by simp
qed

lemma numToString_inj: "numToString a = numToString b \<Longrightarrow> a = b"
proof (induction a arbitrary: b rule: numToString.induct)
  case (1 k)
  show ?case
  proof (cases "k < 10")
    case True
    then have sk: "numToString k = [char_of (48 + k)]" by (subst numToString.simps) simp
    show ?thesis
    proof (cases "b < 10")
      case True
      then have "numToString b = [char_of (48 + b)]" by (subst numToString.simps) simp
      with sk "1.prems" \<open>k < 10\<close> True show ?thesis by (auto dest: digit_char_inj)
    next
      case False
      then have "numToString b = numToString (b div 10) @ [char_of (48 + b mod 10)]"
        by (subst numToString.simps) simp
      with sk "1.prems" numToString_nonempty [of "b div 10"] show ?thesis by simp
    qed
  next
    case False
    then have sk: "numToString k = numToString (k div 10) @ [char_of (48 + k mod 10)]"
      by (subst numToString.simps) simp
    show ?thesis
    proof (cases "b < 10")
      case True
      then have "numToString b = [char_of (48 + b)]" by (subst numToString.simps) simp
      with sk "1.prems" numToString_nonempty [of "k div 10"] show ?thesis by simp
    next
      case bf: False
      then have sb: "numToString b = numToString (b div 10) @ [char_of (48 + b mod 10)]"
        by (subst numToString.simps) simp
      from sk sb "1.prems" have e1: "numToString (k div 10) = numToString (b div 10)"
        and e2: "char_of (48 + k mod 10) = char_of (48 + b mod 10)" by simp_all
      from "1.IH" [OF False e1] have d: "k div 10 = b div 10" .
      from e2 have m: "k mod 10 = b mod 10" by (auto dest!: digit_char_inj [rotated 2])
      from d m show ?thesis by (metis div_mult_mod_eq)
    qed
  qed
qed

lemma numToString_eq_iff [simp]: "numToString a = numToString b \<longleftrightarrow> a = b"
  by (auto dest: numToString_inj)

lemma skipLoop_rec: "skipLoop c u s = (if nr s < u then skipLoop c u (skipStep c s) else s)"
  by (subst skipLoop.simps) (simp add: case_prod_unfold Let_def nextChainKey_def skipStep_def)

lemma skipLoop_induct_step [case_names step]:
  assumes "\<And>s. (nr s < u \<Longrightarrow> P (skipStep c s)) \<Longrightarrow> P s"
  shows "P s"
proof (induction "u - nr s" arbitrary: s rule: less_induct)
  case less
  show ?case
  proof (rule assms)
    assume lt: "nr s < u"
    have "u - nr (skipStep c s) < u - nr s" using lt by (simp add: skipStep_def)
    then show "P (skipStep c s)" by (rule less)
  qed
qed

lemma skipLoop_nr: "nr (skipLoop c u s) = max (nr s) u"
proof (induction s rule: skipLoop_induct_step [where u = u and c = c])
  case (step s)
  show ?case
  proof (cases "nr s < u")
    case True
    from step [OF True] have "nr (skipLoop c u (skipStep c s)) = max (nr s + 1) u"
      by (simp add: skipStep_def)
    with True show ?thesis by (simp add: skipLoop_rec [of c u s])
  next
    case False
    then show ?thesis by (simp add: skipLoop_rec [of c u s])
  qed
qed

lemma skipLoop_frame:
  "rootKey (skipLoop c u s) = rootKey s \<and> chainKeySend (skipLoop c u s) = chainKeySend s
   \<and> dhSend (skipLoop c u s) = dhSend s \<and> dhRecv (skipLoop c u s) = dhRecv s
   \<and> pn (skipLoop c u s) = pn s \<and> ns (skipLoop c u s) = ns s"
proof (induction s rule: skipLoop_induct_step [where u = u and c = c])
  case (step s)
  show ?case
  proof (cases "nr s < u")
    case True
    from step [OF True] show ?thesis
      by (simp add: skipLoop_rec [of c u s] True) (simp add: skipStep_def)
  next
    case False
    then show ?thesis by (simp add: skipLoop_rec [of c u s])
  qed
qed

lemma skipLoop_chain:
  "chainKeyRecv (skipLoop c u s) = chainKeyAt c (chainKeyRecv s) (u - nr s)"
proof (induction s rule: skipLoop_induct_step [where u = u and c = c])
  case (step s)
  show ?case
  proof (cases "nr s < u")
    case True
    then have "u - nr s = Suc (u - (nr s + 1))" by simp
    then have "chainKeyAt c (chainKeyRecv s) (u - nr s)
        = chainKeyAt c (nextChainKey c (chainKeyRecv s)) (u - (nr s + 1))"
      by (simp only: chainKeyAt_Suc)
    moreover from step [OF True]
    have "chainKeyRecv (skipLoop c u (skipStep c s))
        = chainKeyAt c (nextChainKey c (chainKeyRecv s)) (u - (nr s + 1))"
      by (simp add: skipStep_def)
    ultimately show ?thesis by (simp add: skipLoop_rec [of c u s] True)
  next
    case False
    then show ?thesis by (simp add: skipLoop_rec [of c u s])
  qed
qed

lemma skipLoop_keys_other:
  "(\<And>i. nr s \<le> i \<Longrightarrow> i < u \<Longrightarrow> key \<noteq> numToString i)
     \<Longrightarrow> skippedKeys (skipLoop c u s) key = skippedKeys s key"
proof (induction s rule: skipLoop_induct_step [where u = u and c = c])
  case (step s)
  show ?case
  proof (cases "nr s < u")
    case True
    have "skippedKeys (skipLoop c u (skipStep c s)) key = skippedKeys (skipStep c s) key"
    proof (rule step.IH [OF True])
      fix i assume "nr (skipStep c s) \<le> i" and "i < u"
      then show "key \<noteq> numToString i" using step.prems [of i] by (simp add: skipStep_def)
    qed
    moreover have "key \<noteq> numToString (nr s)" using step.prems [of "nr s"] True by simp
    ultimately show ?thesis by (simp add: skipLoop_rec [of c u s] True) (simp add: skipStep_def)
  next
    case False
    then show ?thesis by (simp add: skipLoop_rec [of c u s])
  qed
qed

lemma skipLoop_keys_new:
  "nr s \<le> i \<Longrightarrow> i < u
     \<Longrightarrow> skippedKeys (skipLoop c u s) (numToString i)
         = Some (messageKeyAt c (chainKeyRecv s) (i - nr s))"
proof (induction s rule: skipLoop_induct_step [where u = u and c = c])
  case (step s)
  from step.prems have lt: "nr s < u" by simp
  show ?case
  proof (cases "i = nr s")
    case True
    have "skippedKeys (skipLoop c u (skipStep c s)) (numToString i)
        = skippedKeys (skipStep c s) (numToString i)"
      by (rule skipLoop_keys_other) (simp add: skipStep_def True)
    then show ?thesis
      by (simp add: skipLoop_rec [of c u s] lt) (simp add: skipStep_def True messageKeyAt_0)
  next
    case False
    with step.prems have gt: "nr s + 1 \<le> i" by simp
    then have "i - nr s = Suc (i - (nr s + 1))" by simp
    then have "messageKeyAt c (chainKeyRecv s) (i - nr s)
        = messageKeyAt c (nextChainKey c (chainKeyRecv s)) (i - (nr s + 1))"
      by (simp only: messageKeyAt_Suc)
    moreover have "skippedKeys (skipLoop c u (skipStep c s)) (numToString i)
        = Some (messageKeyAt c (chainKeyRecv (skipStep c s)) (i - nr (skipStep c s)))"
      by (rule step.IH [OF lt]) (use gt step.prems in \<open>simp_all add: skipStep_def\<close>)
    ultimately show ?thesis
      by (simp add: skipLoop_rec [of c u s] lt) (simp add: skipStep_def)
  qed
qed

lemma skipLoop_cache_grows: "dom (skippedKeys s) \<subseteq> dom (skippedKeys (skipLoop c u s))"
proof (induction s rule: skipLoop_induct_step [where u = u and c = c])
  case (step s)
  show ?case
  proof (cases "nr s < u")
    case True
    have "dom (skippedKeys s) \<subseteq> dom (skippedKeys (skipStep c s))"
      by (auto simp: skipStep_def)
    with step [OF True] True show ?thesis by (auto simp: skipLoop_rec [of c u s])
  next
    case False
    then show ?thesis by (simp add: skipLoop_rec [of c u s])
  qed
qed

lemma skipMessageKeys_fails_iff:
  "fst (skipMessageKeys c u s) = Inl SkippedTooMany \<longleftrightarrow> nr s + MAX_SKIP < u"
  by (simp add: skipMessageKeys_def)

text \<open>\<open>encrypt\<close>.\<close>

lemma encrypt_message:
  "fst (encrypt c nonce p s) =
     \<lparr>header = \<lparr>hdr_dhPublicKey = publicKey (dhSend s), hdr_pn = pn s, hdr_n = ns s\<rparr>,
      ciphertext = aesGcmSeal c (messageKeyAt c (chainKeySend s) 0) nonce None (utf8Encode c p),
      iv = nonce\<rparr>"
  by (simp add: encrypt_def case_prod_unfold Let_def encryptAESGCM_def messageKeyAt_0)

lemma encrypt_state:
  "snd (encrypt c nonce p s) = s\<lparr>chainKeySend := nextChainKey c (chainKeySend s), ns := ns s + 1\<rparr>"
  by (simp add: encrypt_def case_prod_unfold Let_def nextChainKey_def)

lemma encrypt_frame:
  "dhSend (snd (encrypt c nonce p s)) = dhSend s" "dhRecv (snd (encrypt c nonce p s)) = dhRecv s"
  "pn (snd (encrypt c nonce p s)) = pn s" "ns (snd (encrypt c nonce p s)) = ns s + 1"
  "nr (snd (encrypt c nonce p s)) = nr s" "rootKey (snd (encrypt c nonce p s)) = rootKey s"
  "chainKeyRecv (snd (encrypt c nonce p s)) = chainKeyRecv s"
  by (simp_all add: encrypt_state)

lemma encrypt_header:
  "header (fst (encrypt c nonce p s))
     = \<lparr>hdr_dhPublicKey = publicKey (dhSend s), hdr_pn = pn s, hdr_n = ns s\<rparr>"
  by (simp add: encrypt_message)

lemma initializeAlice_state:
  "validX25519 c remote \<Longrightarrow>
   initializeAlice c generated sk remote =
     Inr \<lparr> rootKey = fst (deriveRootChainKeys c sk (x25519 c (privateKey generated) remote)),
           chainKeySend = snd (deriveRootChainKeys c sk (x25519 c (privateKey generated) remote)),
           chainKeyRecv = zeroBuffer32, dhSend = generated, dhRecv = Some (importedKey remote),
           pn = 0, ns = 0, nr = 0, skippedKeys = Map.empty \<rparr>"
  by (simp add: initializeAlice_def importKey_False case_prod_unfold Let_def)

text \<open>The DH ratchet step.\<close>

lemma performDHRatchet_too_many:
  "MAX_SKIP < hdr_pn hdr \<Longrightarrow>
   performDHRatchet c g k hdr s =
     (Inl SkippedTooMany, s\<lparr>pn := ns s, ns := 0, nr := 0, dhRecv := Some k\<rparr>)"
  by (simp add: performDHRatchet_def skipMessageKeys_def)

lemma performDHRatchet_ok:
  "hdr_pn hdr \<le> MAX_SKIP \<Longrightarrow>
   performDHRatchet c g k hdr s =
     (Inr (),
      (skipLoop c (hdr_pn hdr) (s\<lparr>pn := ns s, ns := 0, nr := 0, dhRecv := Some k\<rparr>))
        \<lparr>rootKey :=
           fst (deriveRootChainKeys c
                  (fst (deriveRootChainKeys c (rootKey s)
                          (deriveSharedSecret c (privateKey (dhSend s)) k)))
                  (deriveSharedSecret c (privateKey g) k)),
         chainKeyRecv :=
           snd (deriveRootChainKeys c (rootKey s)
                  (deriveSharedSecret c (privateKey (dhSend s)) k)),
         dhSend := g,
         chainKeySend :=
           snd (deriveRootChainKeys c
                  (fst (deriveRootChainKeys c (rootKey s)
                          (deriveSharedSecret c (privateKey (dhSend s)) k)))
                  (deriveSharedSecret c (privateKey g) k))\<rparr>)"
  by (simp add: performDHRatchet_def skipMessageKeys_def case_prod_unfold Let_def skipLoop_frame)

lemma performDHRatchet_counters:
  "hdr_pn hdr \<le> MAX_SKIP \<Longrightarrow>
   nr (snd (performDHRatchet c g k hdr s)) = hdr_pn hdr
   \<and> ns (snd (performDHRatchet c g k hdr s)) = 0
   \<and> pn (snd (performDHRatchet c g k hdr s)) = ns s
   \<and> dhRecv (snd (performDHRatchet c g k hdr s)) = Some k
   \<and> dhSend (snd (performDHRatchet c g k hdr s)) = g"
  by (simp add: performDHRatchet_ok skipLoop_nr skipLoop_frame)

lemma performDHRatchet_chains:
  "hdr_pn hdr \<le> MAX_SKIP \<Longrightarrow>
   chainKeyRecv (snd (performDHRatchet c g (importedKey raw) hdr s)) = ratchetChain c s raw
   \<and> rootKey (snd (performDHRatchet c g (importedKey raw) hdr s)) = ratchetRoot c g s raw
   \<and> chainKeySend (snd (performDHRatchet c g (importedKey raw) hdr s)) = ratchetSendChain c g s raw"
  by (simp add: performDHRatchet_ok ratchetChain_def ratchetRoot_def ratchetSendChain_def)

lemma performDHRatchet_cache:
  "hdr_pn hdr \<le> MAX_SKIP \<Longrightarrow> i < hdr_pn hdr \<Longrightarrow>
   skippedKeys (snd (performDHRatchet c g k hdr s)) (numToString i)
     = Some (messageKeyAt c (chainKeyRecv s) i)"
  using skipLoop_keys_new [of "s\<lparr>pn := ns s, ns := 0, nr := 0, dhRecv := Some k\<rparr>" i "hdr_pn hdr" c]
  by (simp add: performDHRatchet_ok)

text \<open>
  \<open>resolveMessageKey\<close> and \<open>decrypt\<close>. Every message whose key the platform accepts runs
  the DH ratchet step; what follows depends on the header alone.
\<close>

lemma resolve_invalid:
  "\<not> validX25519 c (hdr_dhPublicKey (header m)) \<Longrightarrow> resolveMessageKey c g m s = (Inl CryptoError, s)"
  by (simp add: resolveMessageKey_def importKey_False)

lemma resolve_pn_too_many:
  assumes "validX25519 c (hdr_dhPublicKey (header m))" and "MAX_SKIP < hdr_pn (header m)"
  shows "resolveMessageKey c g m s =
           (Inl SkippedTooMany,
            s\<lparr>pn := ns s, ns := 0, nr := 0,
              dhRecv := Some (importedKey (hdr_dhPublicKey (header m)))\<rparr>)"
  using assms by (simp add: resolveMessageKey_def importKey_False performDHRatchet_too_many)

lemma resolve_n_too_many:
  assumes "validX25519 c (hdr_dhPublicKey (header m))" and "hdr_pn (header m) \<le> MAX_SKIP"
    and "hdr_pn (header m) + MAX_SKIP < hdr_n (header m)"
  shows "resolveMessageKey c g m s =
           (Inl SkippedTooMany,
            snd (performDHRatchet c g (importedKey (hdr_dhPublicKey (header m))) (header m) s))"
proof -
  let ?k = "importedKey (hdr_dhPublicKey (header m))"
  obtain a where p: "performDHRatchet c g ?k (header m) s = (Inr (), a)"
    by (simp add: performDHRatchet_ok [OF assms(2)])
  have n1: "nr a = hdr_pn (header m)"
    using performDHRatchet_counters [OF assms(2), of c g ?k s] by (simp add: p)
  have "skipMessageKeys c (hdr_n (header m)) a = (Inl SkippedTooMany, a)"
    using assms(3) by (simp add: skipMessageKeys_def n1)
  then show ?thesis
    using assms(1) by (simp add: resolveMessageKey_def importKey_False p)
qed

lemma resolve_ok:
  assumes "validX25519 c (hdr_dhPublicKey (header m))" and "hdr_pn (header m) \<le> MAX_SKIP"
    and "hdr_n (header m) \<le> hdr_pn (header m) + MAX_SKIP"
    and "performDHRatchet c g (importedKey (hdr_dhPublicKey (header m))) (header m) s = (r, a)"
  shows "resolveMessageKey c g m s =
           (Inr (messageKeyAt c (chainKeyRecv a) (hdr_n (header m) - hdr_pn (header m))),
            (skipLoop c (hdr_n (header m)) a)
              \<lparr>chainKeyRecv :=
                 chainKeyAt c (chainKeyRecv a) (Suc (hdr_n (header m) - hdr_pn (header m))),
               nr := max (hdr_pn (header m)) (hdr_n (header m)) + 1\<rparr>)"
proof -
  let ?k = "importedKey (hdr_dhPublicKey (header m))"
  have p: "performDHRatchet c g ?k (header m) s = (Inr (), a)"
    using assms(4) by (simp add: performDHRatchet_ok [OF assms(2)])
  have n1: "nr a = hdr_pn (header m)"
    using performDHRatchet_counters [OF assms(2), of c g ?k s] by (simp add: p)
  have sk: "skipMessageKeys c (hdr_n (header m)) a = (Inr (), skipLoop c (hdr_n (header m)) a)"
    using assms(3) by (simp add: skipMessageKeys_def n1)
  show ?thesis
    using assms(1)
    by (simp add: resolveMessageKey_def importKey_False p sk n1 case_prod_unfold Let_def
        skipLoop_chain skipLoop_nr messageKeyAt_def chainKeyAt_Suc_outer nextChainKey_def)
qed

lemma resolve_ok_fields:
  assumes "validX25519 c (hdr_dhPublicKey (header m))" and "hdr_pn (header m) \<le> MAX_SKIP"
    and "hdr_n (header m) \<le> hdr_pn (header m) + MAX_SKIP"
  shows "fst (resolveMessageKey c g m s)
       = Inr (messageKeyAt c (ratchetChain c s (hdr_dhPublicKey (header m)))
                (hdr_n (header m) - hdr_pn (header m)))"
    and "dhRecv (snd (resolveMessageKey c g m s)) = Some (importedKey (hdr_dhPublicKey (header m)))"
    and "dhSend (snd (resolveMessageKey c g m s)) = g"
    and "pn (snd (resolveMessageKey c g m s)) = ns s"
    and "ns (snd (resolveMessageKey c g m s)) = 0"
    and "nr (snd (resolveMessageKey c g m s)) = max (hdr_pn (header m)) (hdr_n (header m)) + 1"
    and "chainKeyRecv (snd (resolveMessageKey c g m s))
       = chainKeyAt c (ratchetChain c s (hdr_dhPublicKey (header m)))
           (Suc (hdr_n (header m) - hdr_pn (header m)))"
    and "rootKey (snd (resolveMessageKey c g m s)) = ratchetRoot c g s (hdr_dhPublicKey (header m))"
    and "chainKeySend (snd (resolveMessageKey c g m s))
       = ratchetSendChain c g s (hdr_dhPublicKey (header m))"
proof -
  let ?k = "importedKey (hdr_dhPublicKey (header m))"
  obtain a where p: "performDHRatchet c g ?k (header m) s = (Inr (), a)"
    by (simp add: performDHRatchet_ok [OF assms(2)])
  note r = resolve_ok [OF assms p]
  have a: "dhRecv a = Some ?k" "dhSend a = g" "pn a = ns s" "ns a = 0"
    "chainKeyRecv a = ratchetChain c s (hdr_dhPublicKey (header m))"
    "rootKey a = ratchetRoot c g s (hdr_dhPublicKey (header m))"
    "chainKeySend a = ratchetSendChain c g s (hdr_dhPublicKey (header m))"
    using performDHRatchet_counters [OF assms(2), of c g ?k s]
      performDHRatchet_chains [OF assms(2), of c g "hdr_dhPublicKey (header m)" s]
    by (simp_all add: p)
  show "fst (resolveMessageKey c g m s)
       = Inr (messageKeyAt c (ratchetChain c s (hdr_dhPublicKey (header m)))
                (hdr_n (header m) - hdr_pn (header m)))"
    by (simp add: r a)
  show "dhRecv (snd (resolveMessageKey c g m s)) = Some ?k" by (simp add: r a skipLoop_frame)
  show "dhSend (snd (resolveMessageKey c g m s)) = g" by (simp add: r a skipLoop_frame)
  show "pn (snd (resolveMessageKey c g m s)) = ns s" by (simp add: r a skipLoop_frame)
  show "ns (snd (resolveMessageKey c g m s)) = 0" by (simp add: r a skipLoop_frame)
  show "nr (snd (resolveMessageKey c g m s)) = max (hdr_pn (header m)) (hdr_n (header m)) + 1"
    by (simp add: r)
  show "chainKeyRecv (snd (resolveMessageKey c g m s))
       = chainKeyAt c (ratchetChain c s (hdr_dhPublicKey (header m)))
           (Suc (hdr_n (header m) - hdr_pn (header m)))"
    by (simp add: r a)
  show "rootKey (snd (resolveMessageKey c g m s)) = ratchetRoot c g s (hdr_dhPublicKey (header m))"
    by (simp add: r a skipLoop_frame)
  show "chainKeySend (snd (resolveMessageKey c g m s))
       = ratchetSendChain c g s (hdr_dhPublicKey (header m))"
    by (simp add: r a skipLoop_frame)
qed

lemma decrypt_state: "snd (decrypt c g m s) = snd (resolveMessageKey c g m s)"
  by (simp add: decrypt_def case_prod_unfold split: sum.splits)

lemma decrypt_resolved:
  "resolveMessageKey c g m s = (Inr mk, s') \<Longrightarrow>
     decrypt c g m s =
       (case aesGcmOpen c mk (iv m) None (ciphertext m) of
          None \<Rightarrow> (Inl AuthenticationFailure, s')
        | Some pt \<Rightarrow> (Inr (utf8Decode c pt), s'))"
  by (simp add: decrypt_def decryptAESGCM_def split: option.splits)

lemma decrypt_unresolved:
  "resolveMessageKey c g m s = (Inl e, s') \<Longrightarrow> decrypt c g m s = (Inl e, s')"
  by (simp add: decrypt_def)

lemma decrypt_result:
  "fst (decrypt c g m s) =
     (if \<not> validX25519 c (hdr_dhPublicKey (header m)) then Inl CryptoError
      else if MAX_SKIP < hdr_pn (header m) \<or> hdr_pn (header m) + MAX_SKIP < hdr_n (header m)
      then Inl SkippedTooMany
      else (case aesGcmOpen c
                  (messageKeyAt c (ratchetChain c s (hdr_dhPublicKey (header m)))
                     (hdr_n (header m) - hdr_pn (header m)))
                  (iv m) None (ciphertext m) of
              None \<Rightarrow> Inl AuthenticationFailure
            | Some pt \<Rightarrow> Inr (utf8Decode c pt)))"
proof (cases "validX25519 c (hdr_dhPublicKey (header m))")
  case False
  then show ?thesis by (simp add: decrypt_unresolved [OF resolve_invalid])
next
  case v: True
  show ?thesis
  proof (cases "MAX_SKIP < hdr_pn (header m)")
    case True
    with v show ?thesis by (simp add: decrypt_unresolved [OF resolve_pn_too_many])
  next
    case False
    then have le: "hdr_pn (header m) \<le> MAX_SKIP" by simp
    show ?thesis
    proof (cases "hdr_pn (header m) + MAX_SKIP < hdr_n (header m)")
      case True
      with v le show ?thesis by (simp add: decrypt_unresolved [OF resolve_n_too_many])
    next
      case False
      then have le2: "hdr_n (header m) \<le> hdr_pn (header m) + MAX_SKIP" by simp
      obtain mk s' where r: "resolveMessageKey c g m s = (Inr mk, s')"
        and mk: "mk = messageKeyAt c (ratchetChain c s (hdr_dhPublicKey (header m)))
                (hdr_n (header m) - hdr_pn (header m))"
        using resolve_ok_fields(1) [OF v le le2, of g s]
        by (cases "resolveMessageKey c g m s") simp
      from v le False show ?thesis
        by (simp add: decrypt_resolved [OF r] mk split: option.splits)
    qed
  qed
qed

text \<open>The small platform.\<close>

lemma toy_fields [simp]:
  "validX25519 toyPlatform k = (length k = 1)"
  "x25519 toyPlatform a b = [firstByte a * firstByte b]"
  "hkdfSha256 toyPlatform = toyHkdf"
  "hmacSha256 toyPlatform = toyHmac"
  "aesGcmSeal toyPlatform = toySeal"
  "aesGcmOpen toyPlatform = toyOpen"
  "utf8Encode toyPlatform = map of_char"
  "utf8Decode toyPlatform = map (\<lambda>w. char_of (unat w))"
  by (simp_all add: toyPlatform_def)

lemma firstByte_simps [simp]:
  "firstByte [] = 0" "firstByte (x # xs) = x" "firstByte (replicate 32 x) = x"
  "firstByte zeroBuffer32 = 0"
  by (simp_all add: firstByte_def zeroBuffer32_def numeral_eq_Suc)

lemma toy_deriveMessageKey [simp]:
  "deriveMessageKey toyPlatform ck
     = (replicate 32 (3 * firstByte ck + 16), replicate 32 (3 * firstByte ck + 14))"
  by (simp add: deriveMessageKey_def hmac_def toyHmac_def)

lemma toy_deriveRootChainKeys [simp]:
  "deriveRootChainKeys toyPlatform rk dho
     = (replicate 32 (sum_list dho + 3 * firstByte rk + 20),
        replicate 32 (5 * sum_list dho + firstByte rk + 1))"
  by (simp add: deriveRootChainKeys_def hkdf_def toyHkdf_def slice_def)

lemma toyAlice_init:
  "initializeAlice toyPlatform (toyKeyPair 5) (replicate 32 9) (publicKey (toyKeyPair 7)) = Inr toyAlice"
  by (simp add: initializeAlice_state toyKeyPair_def toyAlice_def)

lemma toy_open_seal [simp]: "toyOpen key nonce ad (toySeal key nonce ad pt) = Some pt"
  by (simp add: toyOpen_def toySeal_def comp_def)

lemma map_upd_eq_iff [simp]: "(m(k \<mapsto> v) = m(k \<mapsto> v')) = (v = v')"
  by (auto dest: fun_upd_eqD)

lemma numToString_0: "numToString 0 = ''0''"
  by (subst numToString.simps) (simp add: char_of_def bit_iff_odd)

lemma sendTo_parts:
  "fst (sendTo c nonce g p pair) = fst (decrypt c g (fst (encrypt c nonce p (fst pair))) (snd pair))"
  "fst (snd (sendTo c nonce g p pair)) = snd (encrypt c nonce p (fst pair))"
  "snd (snd (sendTo c nonce g p pair))
     = snd (decrypt c g (fst (encrypt c nonce p (fst pair))) (snd pair))"
  by (simp_all add: sendTo_def case_prod_unfold Let_def)

text \<open>Runs on the small platform.\<close>

lemma resolve_ok_in_order:
  assumes "validX25519 c (hdr_dhPublicKey (header m))" and "hdr_pn (header m) \<le> MAX_SKIP"
    and "hdr_n (header m) \<le> hdr_pn (header m)"
    and "performDHRatchet c g (importedKey (hdr_dhPublicKey (header m))) (header m) s = (r, a)"
  shows "resolveMessageKey c g m s =
           (Inr (messageKeyAt c (chainKeyRecv a) 0),
            a\<lparr>chainKeyRecv := nextChainKey c (chainKeyRecv a), nr := hdr_pn (header m) + 1\<rparr>)"
proof -
  have le2: "hdr_n (header m) \<le> hdr_pn (header m) + MAX_SKIP" using assms(3) by simp
  have "nr a = hdr_pn (header m)"
    using performDHRatchet_counters [OF assms(2), of c g "importedKey (hdr_dhPublicKey (header m))" s]
    by (simp add: assms(4))
  then have "skipLoop c (hdr_n (header m)) a = a"
    using assms(3) by (simp add: skipLoop_rec [of c _ a])
  with resolve_ok [OF assms(1,2) le2 assms(4)] assms(3) show ?thesis
    by (simp add: chainKeyAt_Suc_outer max_def)
qed

lemma toy_decrypt_in_order:
  assumes "hdr_dhPublicKey (header m) = [x]" and "hdr_pn (header m) \<le> MAX_SKIP"
    and "hdr_n (header m) \<le> hdr_pn (header m)"
    and "performDHRatchet toyPlatform g (importedKey [x]) (header m) s = (r, a)"
  shows "decrypt toyPlatform g m s =
     (case toyOpen (replicate 32 (3 * firstByte (chainKeyRecv a) + 16)) (iv m) None (ciphertext m) of
        None \<Rightarrow> (Inl AuthenticationFailure,
                 a\<lparr>chainKeyRecv := replicate 32 (3 * firstByte (chainKeyRecv a) + 14),
                   nr := hdr_pn (header m) + 1\<rparr>)
      | Some pt \<Rightarrow> (Inr (utf8Decode toyPlatform pt),
                 a\<lparr>chainKeyRecv := replicate 32 (3 * firstByte (chainKeyRecv a) + 14),
                   nr := hdr_pn (header m) + 1\<rparr>))"
proof -
  have v: "validX25519 toyPlatform (hdr_dhPublicKey (header m))" by (simp add: assms(1))
  have p: "performDHRatchet toyPlatform g (importedKey (hdr_dhPublicKey (header m))) (header m) s = (r, a)"
    by (simp add: assms(1,4))
  from resolve_ok_in_order [OF v assms(2,3) p]
  have "resolveMessageKey toyPlatform g m s =
      (Inr (replicate 32 (3 * firstByte (chainKeyRecv a) + 16)),
       a\<lparr>chainKeyRecv := replicate 32 (3 * firstByte (chainKeyRecv a) + 14),
         nr := hdr_pn (header m) + 1\<rparr>)"
    by (simp add: messageKeyAt_0 nextChainKey_def)
  from decrypt_resolved [OF this] show ?thesis by simp
qed

lemma toy_encrypt_1:
  "encrypt toyPlatform [1] ''hi'' toyAlice
     = (\<lparr>header = \<lparr>hdr_dhPublicKey = [15], hdr_pn = 0, hdr_n = 0\<rparr>,
         ciphertext = [37, 189, 190], iv = [1]\<rparr>, toyAlice1)"
  by (simp add: prod_eq_iff encrypt_message encrypt_state toyAlice_def toyAlice1_def
      toyKeyPair_def messageKeyAt_0 nextChainKey_def toySeal_def adTag_def)

lemma toy_ratchet_bob:
  "hdr_pn hdr = 0 \<Longrightarrow>
   performDHRatchet toyPlatform (toyKeyPair 11) (importedKey [15]) hdr toyBob
     = (Inr (), toyBob1\<lparr>chainKeyRecv := replicate 32 23, nr := 0\<rparr>)"
  by (simp add: performDHRatchet_ok MAX_SKIP_def skipLoop_rec toyBob_def initializeBob_def
      toyBob1_def toyKeyPair_def)

lemma toy_decrypt_1:
  "decrypt toyPlatform (toyKeyPair 11)
      \<lparr>header = \<lparr>hdr_dhPublicKey = [15], hdr_pn = 0, hdr_n = 0\<rparr>,
        ciphertext = [37, 189, 190], iv = [1]\<rparr> toyBob
     = (Inr ''hi'', toyBob1)"
  by (subst toy_decrypt_in_order [where x = 15 and r = "Inr ()"
        and a = "toyBob1\<lparr>chainKeyRecv := replicate 32 23, nr := 0\<rparr>"])
     (simp_all add: toy_ratchet_bob toyOpen_def adTag_def toyBob1_def char_of_def bit_iff_odd)

lemma toy_exchange_1:
  "sendTo toyPlatform [1] (toyKeyPair 11) ''hi'' (toyAlice, toyBob) = (Inr ''hi'', toyAlice1, toyBob1)"
  by (simp add: sendTo_def toy_encrypt_1 toy_decrypt_1)

lemma toy_encrypt_2:
  "encrypt toyPlatform [2] ''yo'' toyBob1
     = (\<lparr>header = \<lparr>hdr_dhPublicKey = [33], hdr_pn = 0, hdr_n = 0\<rparr>,
         ciphertext = [148, 255, 245], iv = [2]\<rparr>,
        toyBob2)"
  by (simp add: prod_eq_iff encrypt_message encrypt_state toyBob1_def toyBob2_def
      toyKeyPair_def nextChainKey_def messageKeyAt_0 toySeal_def adTag_def)

lemma toy_ratchet_alice:
  "performDHRatchet toyPlatform (toyKeyPair 17) (importedKey [33])
      \<lparr>hdr_dhPublicKey = [33], hdr_pn = 0, hdr_n = 0\<rparr> toyAlice1
     = (Inr (), toyAlice2\<lparr>chainKeyRecv := replicate 32 210, nr := 0\<rparr>)"
  by (simp add: performDHRatchet_ok MAX_SKIP_def skipLoop_rec toyAlice_def toyAlice1_def
      toyAlice2_def toyKeyPair_def)

lemma toy_decrypt_2:
  "decrypt toyPlatform (toyKeyPair 17)
      \<lparr>header = \<lparr>hdr_dhPublicKey = [33], hdr_pn = 0, hdr_n = 0\<rparr>,
        ciphertext = [148, 255, 245], iv = [2]\<rparr> toyAlice1
     = (Inr ''yo'', toyAlice2)"
  by (subst toy_decrypt_in_order [where x = 33 and r = "Inr ()"
        and a = "toyAlice2\<lparr>chainKeyRecv := replicate 32 210, nr := 0\<rparr>"])
     (simp_all add: toy_ratchet_alice toyOpen_def adTag_def toyAlice2_def char_of_def bit_iff_odd)

lemma toy_exchange_2:
  "sendTo toyPlatform [2] (toyKeyPair 17) ''yo'' (toyBob1, toyAlice1) = (Inr ''yo'', toyBob2, toyAlice2)"
  by (simp add: sendTo_def toy_encrypt_2 toy_decrypt_2)

lemma toy_encrypt_3:
  "fst (encrypt toyPlatform [3] ''ok'' toyAlice2)
     = \<lparr>header = \<lparr>hdr_dhPublicKey = [51], hdr_pn = 1, hdr_n = 0\<rparr>,
        ciphertext = [16, 228, 224], iv = [3]\<rparr>"
  by (simp add: encrypt_message toyAlice2_def toyKeyPair_def messageKeyAt_0 toySeal_def adTag_def)

lemma toy_ratchet_bob_2:
  "performDHRatchet toyPlatform (toyKeyPair 19) (importedKey [51])
      \<lparr>hdr_dhPublicKey = [51], hdr_pn = 1, hdr_n = 0\<rparr> toyBob2
     = (Inr (),
        \<lparr> rootKey = replicate 32 53, chainKeySend = replicate 32 182,
          chainKeyRecv = replicate 32 119, dhSend = toyKeyPair 19,
          dhRecv = Some (importedKey [51]),
          pn = 1, ns = 0, nr = 1, skippedKeys = [''0'' \<mapsto> replicate 32 9] \<rparr>)"
proof -
  have le: "hdr_pn \<lparr>hdr_dhPublicKey = [51], hdr_pn = 1, hdr_n = 0\<rparr> \<le> MAX_SKIP"
    by (simp add: MAX_SKIP_def)
  show ?thesis
    by (subst performDHRatchet_ok [OF le])
       (simp add: skipLoop_rec skipStep_def numToString_0 toyBob1_def toyBob2_def
         toyKeyPair_def nextChainKey_def)
qed

lemma toy_decrypt_3:
  "decrypt toyPlatform (toyKeyPair 19)
      \<lparr>header = \<lparr>hdr_dhPublicKey = [51], hdr_pn = 1, hdr_n = 0\<rparr>,
        ciphertext = [16, 228, 224], iv = [3]\<rparr> toyBob2
     = (Inr ''ok'',
        \<lparr> rootKey = replicate 32 53, chainKeySend = replicate 32 182,
          chainKeyRecv = replicate 32 115, dhSend = toyKeyPair 19,
          dhRecv = Some (importedKey [51]),
          pn = 1, ns = 0, nr = 2, skippedKeys = [''0'' \<mapsto> replicate 32 9] \<rparr>)"
proof -
  let ?h = "\<lparr>hdr_dhPublicKey = [51], hdr_pn = 1, hdr_n = 0\<rparr>"
  let ?m = "\<lparr>header = ?h, ciphertext = [16, 228, 224], iv = [3]\<rparr>"
  let ?a = "\<lparr> rootKey = replicate 32 53, chainKeySend = replicate 32 182,
          chainKeyRecv = replicate 32 119, dhSend = toyKeyPair 19,
          dhRecv = Some (importedKey [51]),
          pn = 1, ns = 0, nr = 1, skippedKeys = [''0'' \<mapsto> replicate 32 9] \<rparr>"
  have hm: "header ?m = ?h" by simp
  have k: "hdr_dhPublicKey (header ?m) = [51]" by simp
  have le1: "hdr_pn (header ?m) \<le> MAX_SKIP" by (simp add: MAX_SKIP_def)
  have le2: "hdr_n (header ?m) \<le> hdr_pn (header ?m)" by simp
  have rat: "performDHRatchet toyPlatform (toyKeyPair 19) (importedKey [51]) (header ?m) toyBob2
      = (Inr (), ?a)"
    by (simp only: hm toy_ratchet_bob_2)
  show ?thesis
    by (subst toy_decrypt_in_order [OF k le1 le2 rat])
       (simp add: toyOpen_def adTag_def char_of_def bit_iff_odd)
qed

lemma toy_encrypt_1b:
  "fst (encrypt toyPlatform [2] ''yo'' toyAlice1)
     = \<lparr>header = \<lparr>hdr_dhPublicKey = [15], hdr_pn = 0, hdr_n = 1\<rparr>,
        ciphertext = [41, 130, 120], iv = [2]\<rparr>"
  by (simp add: encrypt_message toyAlice1_def toyAlice_def toyKeyPair_def messageKeyAt_0
      toySeal_def adTag_def)

lemma toy_decrypt_skipping:
  "decrypt toyPlatform (toyKeyPair 11)
      \<lparr>header = \<lparr>hdr_dhPublicKey = [15], hdr_pn = 0, hdr_n = 1\<rparr>,
        ciphertext = [41, 130, 120], iv = [2]\<rparr> toyBob
     = (Inr ''yo'', toyBobSkipped)"
proof -
  let ?m = "\<lparr>header = \<lparr>hdr_dhPublicKey = [15], hdr_pn = 0, hdr_n = 1\<rparr>,
        ciphertext = [41, 130, 120], iv = [2]\<rparr>"
  have "resolveMessageKey toyPlatform (toyKeyPair 11) ?m toyBob
      = (Inr (replicate 32 9), toyBobSkipped)"
    by (simp add: resolveMessageKey_def importKey_False toy_ratchet_bob skipMessageKeys_def
        MAX_SKIP_def skipLoop_rec skipStep_def numToString_0 nextChainKey_def toyBob1_def
        toyBobSkipped_def)
  from decrypt_resolved [OF this] show ?thesis
    by (simp add: toyOpen_def adTag_def char_of_def bit_iff_odd)
qed

section \<open>The skip boundary\<close>

text \<open>
  C6 at a failing input. \<open>skipMessageKeys\<close> fails with \<open>SkippedTooMany\<close> exactly when
  \<open>Nr + MAX_SKIP\<close> is less than the requested index, \<open>Nr\<close> being the counter at the time
  of the call. \<open>decrypt\<close> calls it after the DH ratchet step, which it runs on every
  message and which leaves \<open>Nr\<close> equal to the header's \<open>Pn\<close>: for a message whose key
  the platform accepts, \<open>decrypt\<close> fails with \<open>SkippedTooMany\<close> exactly when \<open>Pn\<close> exceeds
  \<open>MAX_SKIP\<close> or the header index exceeds \<open>Pn + MAX_SKIP\<close>, whatever the counter \<open>Nr\<close> of
  the state.
\<close>

theorem decrypt_skip_boundary:
  assumes "validX25519 c (hdr_dhPublicKey (header m))"
  shows "(fst (skipMessageKeys c until s) = Inl SkippedTooMany \<longleftrightarrow> nr s + MAX_SKIP < until)
   \<and> (fst (decrypt c g m s) = Inl SkippedTooMany \<longleftrightarrow>
        MAX_SKIP < hdr_pn (header m) \<or> hdr_pn (header m) + MAX_SKIP < hdr_n (header m))"
proof
  show "fst (skipMessageKeys c until s) = Inl SkippedTooMany \<longleftrightarrow> nr s + MAX_SKIP < until"
    by (rule skipMessageKeys_fails_iff)
  show "fst (decrypt c g m s) = Inl SkippedTooMany \<longleftrightarrow>
        MAX_SKIP < hdr_pn (header m) \<or> hdr_pn (header m) + MAX_SKIP < hdr_n (header m)"
    using assms by (simp add: decrypt_result split: option.splits)
qed

text \<open>
  The responder's state after it has decrypted the initiator's first message has
  \<open>Nr = 1\<close> and the initiator's ratchet key as the last known remote key. A message of that chain with
  header index \<open>Nr + MAX_SKIP\<close> fails with \<open>SkippedTooMany\<close>; a message with header index
  \<open>Nr + MAX_SKIP + 1\<close> and \<open>Pn = 2\<close> gets as far as the AEAD.
\<close>

theorem decrypt_skip_boundary_witness:
  "sendTo toyPlatform [1] (toyKeyPair 11) ''hi'' (toyAlice, toyBob) = (Inr ''hi'', toyAlice1, toyBob1)
   \<and> nr toyBob1 = 1 \<and> dhRecv toyBob1 = Some (importedKey [15])
   \<and> fst (decrypt toyPlatform (toyKeyPair 19)
            \<lparr>header = \<lparr>hdr_dhPublicKey = [15], hdr_pn = 0, hdr_n = 1 + MAX_SKIP\<rparr>,
              ciphertext = [], iv = []\<rparr> toyBob1) = Inl SkippedTooMany
   \<and> fst (decrypt toyPlatform (toyKeyPair 19)
            \<lparr>header = \<lparr>hdr_dhPublicKey = [15], hdr_pn = 2, hdr_n = 1 + MAX_SKIP + 1\<rparr>,
              ciphertext = [], iv = []\<rparr> toyBob1) = Inl AuthenticationFailure"
proof -
  let ?m = "\<lparr>header = \<lparr>hdr_dhPublicKey = [15], hdr_pn = 0, hdr_n = 1 + MAX_SKIP\<rparr>,
              ciphertext = [], iv = []\<rparr>"
  let ?m' = "\<lparr>header = \<lparr>hdr_dhPublicKey = [15], hdr_pn = 2, hdr_n = 1 + MAX_SKIP + 1\<rparr>,
              ciphertext = [], iv = []\<rparr>"
  have v: "validX25519 toyPlatform (hdr_dhPublicKey (header ?m))" by simp
  have v': "validX25519 toyPlatform (hdr_dhPublicKey (header ?m'))" by simp
  from decrypt_skip_boundary [OF v, of 0 toyBob1 "toyKeyPair 19"]
  have a: "fst (decrypt toyPlatform (toyKeyPair 19) ?m toyBob1) = Inl SkippedTooMany"
    by simp
  from decrypt_skip_boundary [OF v', of 0 toyBob1 "toyKeyPair 19"]
  have "fst (decrypt toyPlatform (toyKeyPair 19) ?m' toyBob1) \<noteq> Inl SkippedTooMany"
    by (simp add: MAX_SKIP_def)
  then have b: "fst (decrypt toyPlatform (toyKeyPair 19) ?m' toyBob1) = Inl AuthenticationFailure"
    by (simp add: decrypt_result toyOpen_def split: if_splits)
  show ?thesis using a b by (simp add: toyBob1_def toy_exchange_1)
qed

section \<open>The message interface of the key management service\<close>

text \<open>
  C8. For a handle that the registry does not hold, \<open>encryptMessage\<close> and
  \<open>decryptMessage\<close> fail with \<open>SessionNotFound\<close> and return the service unchanged.
  For a registered handle they return what the session's ratchet returns, and the
  registry holds the session with its last-used time set to the current time and the
  ratchet state that the ratchet left.
\<close>

theorem message_api:
  "(sessions kms h = None \<longrightarrow>
      encryptMessage c now nonce h p kms = (Inl SessionNotFound, kms)
      \<and> decryptMessage c now g h m kms = (Inl SessionNotFound, kms))
   \<and> (\<forall>sess. sessions kms h = Some sess \<longrightarrow>
        encryptMessage c now nonce h p kms =
          (Inr (fst (encrypt c nonce p (ratchet sess))),
           kms\<lparr>sessions := (sessions kms)(h \<mapsto>
                  sess\<lparr>lastUsed := now, ratchet := snd (encrypt c nonce p (ratchet sess))\<rparr>)\<rparr>)
        \<and> decryptMessage c now g h m kms =
          (fst (decrypt c g m (ratchet sess)),
           kms\<lparr>sessions := (sessions kms)(h \<mapsto>
                  sess\<lparr>lastUsed := now, ratchet := snd (decrypt c g m (ratchet sess))\<rparr>)\<rparr>))"
  by (simp add: encryptMessage_def decryptMessage_def case_prod_unfold Let_def)

theorem message_api_witness:
  "encryptMessage toyPlatform 5 [1] ''zz'' ''hi'' toyKms = (Inl SessionNotFound, toyKms)
   \<and> decryptMessage toyPlatform 5 (toyKeyPair 11) ''zz''
        \<lparr>header = \<lparr>hdr_dhPublicKey = [21], hdr_pn = 0, hdr_n = 0\<rparr>, ciphertext = [], iv = []\<rparr>
        toyKms = (Inl SessionNotFound, toyKms)
   \<and> map_option lastUsed (sessions (snd (encryptMessage toyPlatform 5 [1] ''c1'' ''hi'' toyKms)) ''c1'')
       = Some 5
   \<and> map_option (ns \<circ> ratchet)
        (sessions (snd (encryptMessage toyPlatform 5 [1] ''c1'' ''hi'' toyKms)) ''c1'') = Some 1
   \<and> map_option lastUsed (sessions (snd (decryptMessage toyPlatform 5 (toyKeyPair 11) ''c1''
        \<lparr>header = \<lparr>hdr_dhPublicKey = [21], hdr_pn = 0, hdr_n = 0\<rparr>, ciphertext = [], iv = []\<rparr>
        toyKms)) ''c1'') = Some 5"
proof -
  let ?m = "\<lparr>header = \<lparr>hdr_dhPublicKey = [21], hdr_pn = 0, hdr_n = 0\<rparr>, ciphertext = [], iv = []\<rparr>"
  let ?sess = "\<lparr> conversationId = ''c1'', ratchet = toyAlice, createdAt = 1, lastUsed = 1 \<rparr>"
  have a: "sessions toyKms ''zz'' = None" by (simp add: toyKms_def)
  have b: "sessions toyKms ''c1'' = Some ?sess" by (simp add: toyKms_def)
  note w1 = message_api [of toyKms "''zz''" toyPlatform 5 "[1]" "''hi''" "toyKeyPair 11" ?m,
      THEN conjunct1, rule_format, OF a]
  note w2 = message_api [of toyKms "''c1''" toyPlatform 5 "[1]" "''hi''" "toyKeyPair 11" ?m,
      THEN conjunct2, rule_format, OF b]
  have c: "ns (snd (encrypt toyPlatform [1] ''hi'' toyAlice)) = 1"
    by (simp add: encrypt_def case_prod_unfold Let_def toyAlice_def)
  show ?thesis by (simp add: w1 w2 c)
qed


section \<open>The header and the AEAD tag\<close>

text \<open>
  C9. \<open>encrypt\<close> seals the plaintext under the next message key of the sending chain
  with no associated data, and \<open>decrypt\<close> opens the ciphertext under the resolved
  message key with no associated data, so the header is not an input of the tag. A
  message whose header is replaced while ciphertext and nonce are kept (same ratchet
  key, another previous-chain length and another index, at the same distance from each
  other) is decrypted with the same result as the original, and leaves the same keys,
  \<open>Pn\<close> and \<open>Ns\<close>.
\<close>

theorem header_not_bound:
  "ciphertext (fst (encrypt c nonce p sender))
     = aesGcmSeal c (messageKeyAt c (chainKeySend sender) 0) nonce None (utf8Encode c p)
   \<and> (\<forall>mk s'. resolveMessageKey c g m s = (Inr mk, s') \<longrightarrow>
         decrypt c g m s =
           (case aesGcmOpen c mk (iv m) None (ciphertext m) of
              None \<Rightarrow> (Inl AuthenticationFailure, s')
            | Some pt \<Rightarrow> (Inr (utf8Decode c pt), s')))
   \<and> (hdr_pn (header m) \<le> MAX_SKIP \<and> hdr_n (header m) \<le> hdr_pn (header m) + MAX_SKIP
        \<and> pn' \<le> MAX_SKIP \<and> n' - pn' = hdr_n (header m) - hdr_pn (header m)
        \<and> m' = m\<lparr>header := \<lparr>hdr_dhPublicKey = hdr_dhPublicKey (header m),
                              hdr_pn = pn', hdr_n = n'\<rparr>\<rparr> \<longrightarrow>
         fst (decrypt c g m' s) = fst (decrypt c g m s)
         \<and> rootKey (snd (decrypt c g m' s)) = rootKey (snd (decrypt c g m s))
         \<and> chainKeySend (snd (decrypt c g m' s)) = chainKeySend (snd (decrypt c g m s))
         \<and> chainKeyRecv (snd (decrypt c g m' s)) = chainKeyRecv (snd (decrypt c g m s))
         \<and> dhSend (snd (decrypt c g m' s)) = dhSend (snd (decrypt c g m s))
         \<and> dhRecv (snd (decrypt c g m' s)) = dhRecv (snd (decrypt c g m s))
         \<and> pn (snd (decrypt c g m' s)) = pn (snd (decrypt c g m s))
         \<and> ns (snd (decrypt c g m' s)) = ns (snd (decrypt c g m s)))"
proof (intro conjI allI)
  show "ciphertext (fst (encrypt c nonce p sender))
     = aesGcmSeal c (messageKeyAt c (chainKeySend sender) 0) nonce None (utf8Encode c p)"
    by (simp add: encrypt_message)
next
  fix mk s'
  show "resolveMessageKey c g m s = (Inr mk, s') \<longrightarrow>
         decrypt c g m s =
           (case aesGcmOpen c mk (iv m) None (ciphertext m) of
              None \<Rightarrow> (Inl AuthenticationFailure, s')
            | Some pt \<Rightarrow> (Inr (utf8Decode c pt), s'))"
    by (auto dest: decrypt_resolved)
next
  let ?concl = "fst (decrypt c g m' s) = fst (decrypt c g m s)
         \<and> rootKey (snd (decrypt c g m' s)) = rootKey (snd (decrypt c g m s))
         \<and> chainKeySend (snd (decrypt c g m' s)) = chainKeySend (snd (decrypt c g m s))
         \<and> chainKeyRecv (snd (decrypt c g m' s)) = chainKeyRecv (snd (decrypt c g m s))
         \<and> dhSend (snd (decrypt c g m' s)) = dhSend (snd (decrypt c g m s))
         \<and> dhRecv (snd (decrypt c g m' s)) = dhRecv (snd (decrypt c g m s))
         \<and> pn (snd (decrypt c g m' s)) = pn (snd (decrypt c g m s))
         \<and> ns (snd (decrypt c g m' s)) = ns (snd (decrypt c g m s))"
  {
  assume h: "hdr_pn (header m) \<le> MAX_SKIP \<and> hdr_n (header m) \<le> hdr_pn (header m) + MAX_SKIP
        \<and> pn' \<le> MAX_SKIP \<and> n' - pn' = hdr_n (header m) - hdr_pn (header m)
        \<and> m' = m\<lparr>header := \<lparr>hdr_dhPublicKey = hdr_dhPublicKey (header m),
                              hdr_pn = pn', hdr_n = n'\<rparr>\<rparr>"
  then have le: "hdr_pn (header m) \<le> MAX_SKIP"
    and le2: "hdr_n (header m) \<le> hdr_pn (header m) + MAX_SKIP"
    and le': "hdr_pn (header m') \<le> MAX_SKIP"
    and le2': "hdr_n (header m') \<le> hdr_pn (header m') + MAX_SKIP"
    and d: "hdr_n (header m') - hdr_pn (header m') = hdr_n (header m) - hdr_pn (header m)"
    and k: "hdr_dhPublicKey (header m') = hdr_dhPublicKey (header m)"
    and ct: "ciphertext m' = ciphertext m" "iv m' = iv m"
    by auto
  from le le2 le' le2' d k ct
  have r: "fst (decrypt c g m' s) = fst (decrypt c g m s)"
    by (simp add: decrypt_result)
  have "rootKey (snd (decrypt c g m' s)) = rootKey (snd (decrypt c g m s))
         \<and> chainKeySend (snd (decrypt c g m' s)) = chainKeySend (snd (decrypt c g m s))
         \<and> chainKeyRecv (snd (decrypt c g m' s)) = chainKeyRecv (snd (decrypt c g m s))
         \<and> dhSend (snd (decrypt c g m' s)) = dhSend (snd (decrypt c g m s))
         \<and> dhRecv (snd (decrypt c g m' s)) = dhRecv (snd (decrypt c g m s))
         \<and> pn (snd (decrypt c g m' s)) = pn (snd (decrypt c g m s))
         \<and> ns (snd (decrypt c g m' s)) = ns (snd (decrypt c g m s))"
  proof (cases "validX25519 c (hdr_dhPublicKey (header m))")
    case False
    then have "\<not> validX25519 c (hdr_dhPublicKey (header m'))" by (simp add: k)
    with False show ?thesis by (simp add: decrypt_state resolve_invalid)
  next
    case True
    then have v': "validX25519 c (hdr_dhPublicKey (header m'))" by (simp add: k)
    show ?thesis
      by (simp add: decrypt_state resolve_ok_fields [OF True le le2]
          resolve_ok_fields [OF v' le' le2'] d k)
  qed
  with r have ?concl by simp
  }
  then show "hdr_pn (header m) \<le> MAX_SKIP \<and> hdr_n (header m) \<le> hdr_pn (header m) + MAX_SKIP
        \<and> pn' \<le> MAX_SKIP \<and> n' - pn' = hdr_n (header m) - hdr_pn (header m)
        \<and> m' = m\<lparr>header := \<lparr>hdr_dhPublicKey = hdr_dhPublicKey (header m),
                              hdr_pn = pn', hdr_n = n'\<rparr>\<rparr> \<longrightarrow> ?concl"
    by (rule impI)
qed

text \<open>
  On the small platform the initiator's first message, and the same message with the
  previous-chain length in its header replaced, are both decrypted to ``hi'' by the
  responder.
\<close>

theorem header_not_bound_witness:
  "ciphertext (fst (encrypt toyPlatform [1] ''hi'' toyAlice)) = [37, 189, 190]
   \<and> decrypt toyPlatform (toyKeyPair 11)
        \<lparr>header = \<lparr>hdr_dhPublicKey = [15], hdr_pn = 0, hdr_n = 0\<rparr>,
          ciphertext = [37, 189, 190], iv = [1]\<rparr> toyBob
       = (Inr ''hi'', toyBob1)
   \<and> fst (decrypt toyPlatform (toyKeyPair 11)
        \<lparr>header = \<lparr>hdr_dhPublicKey = [15], hdr_pn = 77, hdr_n = 0\<rparr>,
          ciphertext = [37, 189, 190], iv = [1]\<rparr> toyBob) = Inr ''hi''
   \<and> chainKeyRecv (snd (decrypt toyPlatform (toyKeyPair 11)
        \<lparr>header = \<lparr>hdr_dhPublicKey = [15], hdr_pn = 77, hdr_n = 0\<rparr>,
          ciphertext = [37, 189, 190], iv = [1]\<rparr> toyBob)) = chainKeyRecv toyBob1"
proof -
  let ?m = "\<lparr>header = \<lparr>hdr_dhPublicKey = [15], hdr_pn = 0, hdr_n = 0\<rparr>,
          ciphertext = [37, 189, 190], iv = [1]\<rparr>"
  let ?m' = "\<lparr>header = \<lparr>hdr_dhPublicKey = [15], hdr_pn = 77, hdr_n = 0\<rparr>,
          ciphertext = [37, 189, 190], iv = [1]\<rparr>"
  note w = header_not_bound [where c = toyPlatform and nonce = "[1]" and p = "''hi''"
      and sender = toyAlice and g = "toyKeyPair 11" and m = ?m and s = toyBob
      and n' = 0 and pn' = 77 and m' = ?m']
  from w have w1: "ciphertext (fst (encrypt toyPlatform [1] ''hi'' toyAlice))
      = aesGcmSeal toyPlatform (messageKeyAt toyPlatform (chainKeySend toyAlice) 0) [1] None
          (utf8Encode toyPlatform ''hi'')" by (rule conjunct1)
  have pre: "hdr_pn (header ?m) \<le> MAX_SKIP \<and> hdr_n (header ?m) \<le> hdr_pn (header ?m) + MAX_SKIP
        \<and> 77 \<le> MAX_SKIP \<and> (0::nat) - 77 = hdr_n (header ?m) - hdr_pn (header ?m)
        \<and> ?m' = ?m\<lparr>header := \<lparr>hdr_dhPublicKey = hdr_dhPublicKey (header ?m),
                              hdr_pn = 77, hdr_n = 0\<rparr>\<rparr>"
    by (simp add: MAX_SKIP_def)
  from w pre have w3: "fst (decrypt toyPlatform (toyKeyPair 11) ?m' toyBob)
       = fst (decrypt toyPlatform (toyKeyPair 11) ?m toyBob)
     \<and> chainKeyRecv (snd (decrypt toyPlatform (toyKeyPair 11) ?m' toyBob))
       = chainKeyRecv (snd (decrypt toyPlatform (toyKeyPair 11) ?m toyBob))"
    by blast
  have e0: "ciphertext (fst (encrypt toyPlatform [1] ''hi'' toyAlice)) = [37, 189, 190]"
    using w1 by (simp add: toyAlice_def messageKeyAt_0 toySeal_def adTag_def)
  show ?thesis using e0 w3 by (simp add: toy_decrypt_1)
qed


section \<open>The responder's first message\<close>

text \<open>
  C10. After \<open>initializeBob\<close> the sending chain key is the all-zero buffer, and a message
  that the responder encrypts before it has decrypted anything is sealed under the
  message key derived from that buffer, whatever the shared secret. The initiator's
  session runs the DH ratchet step on that message and opens it under the first message
  key of the receiving chain it derives from its root key. When the AEAD does not open
  under that key what was sealed under the key of the all-zero chain, \<open>decrypt\<close> fails
  with \<open>AuthenticationFailure\<close>. The platform is assumed to accept the responder's public
  key.
\<close>

theorem responder_first_message:
  assumes "validX25519 c (publicKey bobKeys)"
    and "aesGcmOpen c
           (hmac c (snd (deriveRootChainKeys c
                           (fst (deriveRootChainKeys c skA
                                   (x25519 c (privateKey aliceKeys) (publicKey bobKeys))))
                           (x25519 c (privateKey aliceKeys) (publicKey bobKeys))))
              (utf8Encode c ''MESSAGE_KEY_SEED''))
           nonce None
           (aesGcmSeal c (hmac c zeroBuffer32 (utf8Encode c ''MESSAGE_KEY_SEED'')) nonce None
              (utf8Encode c p)) = None"
  shows "chainKeySend (initializeBob skB bobKeys) = zeroBuffer32
    \<and> ciphertext (fst (encrypt c nonce p (initializeBob skB bobKeys)))
        = aesGcmSeal c (hmac c zeroBuffer32 (utf8Encode c ''MESSAGE_KEY_SEED'')) nonce None
            (utf8Encode c p)
    \<and> (\<exists>alice. initializeAlice c aliceKeys skA (publicKey bobKeys) = Inr alice
          \<and> fst (decrypt c g (fst (encrypt c nonce p (initializeBob skB bobKeys))) alice)
              = Inl AuthenticationFailure)"
proof (intro conjI)
  let ?mk = "hmac c zeroBuffer32 (utf8Encode c ''MESSAGE_KEY_SEED'')"
  let ?m = "fst (encrypt c nonce p (initializeBob skB bobKeys))"
  let ?dh = "x25519 c (privateKey aliceKeys) (publicKey bobKeys)"
  let ?alice = "\<lparr> rootKey = fst (deriveRootChainKeys c skA ?dh),
           chainKeySend = snd (deriveRootChainKeys c skA ?dh),
           chainKeyRecv = zeroBuffer32, dhSend = aliceKeys,
           dhRecv = Some (importedKey (publicKey bobKeys)),
           pn = 0, ns = 0, nr = 0, skippedKeys = Map.empty \<rparr>"
  show "chainKeySend (initializeBob skB bobKeys) = zeroBuffer32"
    by (simp add: initializeBob_def)
  have mk: "messageKeyAt c zeroBuffer32 0 = ?mk"
    by (simp add: messageKeyAt_0 deriveMessageKey_def)
  have m: "?m = \<lparr>header = \<lparr>hdr_dhPublicKey = publicKey bobKeys, hdr_pn = 0, hdr_n = 0\<rparr>,
                 ciphertext = aesGcmSeal c ?mk nonce None (utf8Encode c p), iv = nonce\<rparr>"
    by (simp add: encrypt_message initializeBob_def mk)
  show "ciphertext ?m = aesGcmSeal c ?mk nonce None (utf8Encode c p)"
    by (simp add: m)
  have init: "initializeAlice c aliceKeys skA (publicKey bobKeys) = Inr ?alice"
    by (rule initializeAlice_state [OF assms(1)])
  have "fst (decrypt c g ?m ?alice) = Inl AuthenticationFailure"
    using assms
    by (simp add: decrypt_result m ratchetChain_def messageKeyAt_0 deriveMessageKey_def)
  with init show "\<exists>alice. initializeAlice c aliceKeys skA (publicKey bobKeys) = Inr alice
          \<and> fst (decrypt c g ?m alice) = Inl AuthenticationFailure"
    by blast
qed

theorem responder_first_message_witness:
  "chainKeySend (initializeBob (replicate 32 9) (toyKeyPair 7)) = zeroBuffer32
   \<and> ciphertext (fst (encrypt toyPlatform [1] ''hi'' (initializeBob (replicate 32 9) (toyKeyPair 7))))
       = [66, 120, 121]
   \<and> initializeAlice toyPlatform (toyKeyPair 5) (replicate 32 9) (publicKey (toyKeyPair 7))
       = Inr toyAlice
   \<and> fst (decrypt toyPlatform (toyKeyPair 11)
            (fst (encrypt toyPlatform [1] ''hi'' (initializeBob (replicate 32 9) (toyKeyPair 7))))
            toyAlice) = Inl AuthenticationFailure"
proof -
  have v: "validX25519 toyPlatform (publicKey (toyKeyPair 7))" by (simp add: toyKeyPair_def)
  have a: "aesGcmOpen toyPlatform
           (hmac toyPlatform (snd (deriveRootChainKeys toyPlatform
                           (fst (deriveRootChainKeys toyPlatform (replicate 32 9)
                                   (x25519 toyPlatform (privateKey (toyKeyPair 5)) (publicKey (toyKeyPair 7)))))
                           (x25519 toyPlatform (privateKey (toyKeyPair 5)) (publicKey (toyKeyPair 7)))))
              (utf8Encode toyPlatform ''MESSAGE_KEY_SEED''))
           [1] None
           (aesGcmSeal toyPlatform (hmac toyPlatform zeroBuffer32 (utf8Encode toyPlatform ''MESSAGE_KEY_SEED'')) [1] None
              (utf8Encode toyPlatform ''hi'')) = None"
    by (simp add: hmac_def toyHmac_def toySeal_def toyOpen_def adTag_def toyKeyPair_def)
  have s: "aesGcmSeal toyPlatform (hmac toyPlatform zeroBuffer32 (utf8Encode toyPlatform ''MESSAGE_KEY_SEED'')) [1] None
              (utf8Encode toyPlatform ''hi'') = [66, 120, 121]"
    by (simp add: hmac_def toyHmac_def toySeal_def adTag_def)
  from responder_first_message [where c = toyPlatform and bobKeys = "toyKeyPair 7" and nonce = "[1]"
      and p = "''hi''" and skB = "replicate 32 9" and skA = "replicate 32 9"
      and aliceKeys = "toyKeyPair 5" and g = "toyKeyPair 11", OF v a]
  show ?thesis by (simp only: s toyAlice_init) simp
qed


section \<open>X3DH symmetry\<close>

text \<open>
  C3. Let the bundle hold the responder's public identity key, signed prekey and the
  one-time prekey that the responder's pool holds under the given id (none when the id
  is absent or empty, or the pool has no such key), let the platform accept the public
  keys, and let the Diffie-Hellman function agree on the three or four pairings. Then
  \<open>performX3DH\<close> returns a shared key, \<open>acceptConversation\<close> registers a session whose
  root key is that same shared key, and the key is the HKDF, with zero salt and the fixed
  info string, of the Diffie-Hellman outputs in the order DH1, DH2, DH3 and, when there
  is a one-time prekey, DH4.
\<close>

theorem x3dh_symmetry:
  assumes valid: "validX25519 c (publicKey bobIdentity)" "validX25519 c (publicKey bobSigned)"
      "validX25519 c (publicKey aliceIdentity)" "validX25519 c (publicKey aliceEphemeral)"
      "\<forall>otk. poolKey kms oneTimePreKeyId = Some otk \<longrightarrow> validX25519 c (publicKey otk)"
    and agree:
      "x25519 c (privateKey aliceIdentity) (publicKey bobSigned)
         = x25519 c (privateKey bobSigned) (publicKey aliceIdentity)"
      "x25519 c (privateKey aliceEphemeral) (publicKey bobIdentity)
         = x25519 c (privateKey bobIdentity) (publicKey aliceEphemeral)"
      "x25519 c (privateKey aliceEphemeral) (publicKey bobSigned)
         = x25519 c (privateKey bobSigned) (publicKey aliceEphemeral)"
      "\<forall>otk. poolKey kms oneTimePreKeyId = Some otk \<longrightarrow>
         x25519 c (privateKey aliceEphemeral) (publicKey otk)
           = x25519 c (privateKey otk) (publicKey aliceEphemeral)"
    and bob: "preKeys kms signedPreKeyId = Some bobSigned" "identityKeyPair kms = Some bobIdentity"
    and dir: "fetchIdentityKey senderUserId = publicKey aliceIdentity"
    and bnd: "preKeyBundle = \<lparr> identityKey = publicKey bobIdentity, signedPreKey = publicKey bobSigned,
                           signedPreKeySignature = sig,
                           oneTimePreKey = map_option publicKey (poolKey kms oneTimePreKeyId) \<rparr>"
  shows "\<exists>sharedKey.
           performX3DH c aliceIdentity aliceEphemeral preKeyBundle = Inr sharedKey
         \<and> fst (acceptConversation c fetchIdentityKey newId now senderUserId
                  (publicKey aliceEphemeral) signedPreKeyId oneTimePreKeyId kms) = Inr newId
         \<and> map_option (rootKey \<circ> ratchet)
              (sessions (snd (acceptConversation c fetchIdentityKey newId now senderUserId
                  (publicKey aliceEphemeral) signedPreKeyId oneTimePreKeyId kms)) newId)
             = Some sharedKey
         \<and> sharedKey =
             hkdf c (x25519 c (privateKey aliceIdentity) (publicKey bobSigned)
                     @ x25519 c (privateKey aliceEphemeral) (publicKey bobIdentity)
                     @ x25519 c (privateKey aliceEphemeral) (publicKey bobSigned)
                     @ (case poolKey kms oneTimePreKeyId of
                          None \<Rightarrow> []
                        | Some otk \<Rightarrow> x25519 c (privateKey aliceEphemeral) (publicKey otk)))
               zeroBuffer32 (utf8Encode c ''BuddyHunt X3DH'') 32"
proof (cases "poolKey kms oneTimePreKeyId")
  case None
  have p: "(case oneTimePreKeyId of None \<Rightarrow> None
       | Some i \<Rightarrow> if truthyId oneTimePreKeyId then oneTimePreKeys kms i else None) = None"
    using None by (simp add: poolKey_def truthyId_def split: option.splits if_splits)
  have i: "identityKeyPair (case oneTimePreKeyId of None \<Rightarrow> kms
       | Some i \<Rightarrow> if truthyId oneTimePreKeyId
                   then kms\<lparr>oneTimePreKeys := (oneTimePreKeys kms)(i := None)\<rparr> else kms)
       = Some bobIdentity"
    using bob(2) by (simp split: option.splits)
  show ?thesis
    using valid(1-4) agree(1-3) bob(1) dir
    by (simp add: performX3DH_def acceptConversation_def bnd None p i importKey_def Let_def
        deriveSharedSecret_def initializeBob_def)
next
  case (Some otk)
  have p: "(case oneTimePreKeyId of None \<Rightarrow> None
       | Some i \<Rightarrow> if truthyId oneTimePreKeyId then oneTimePreKeys kms i else None) = Some otk"
    using Some by (simp add: poolKey_def truthyId_def split: option.splits if_splits)
  have i: "identityKeyPair (case oneTimePreKeyId of None \<Rightarrow> kms
       | Some i \<Rightarrow> if truthyId oneTimePreKeyId
                   then kms\<lparr>oneTimePreKeys := (oneTimePreKeys kms)(i := None)\<rparr> else kms)
       = Some bobIdentity"
    using bob(2) by (simp split: option.splits)
  from valid(5) agree(4) Some have v: "validX25519 c (publicKey otk)"
    and a: "x25519 c (privateKey aliceEphemeral) (publicKey otk)
           = x25519 c (privateKey otk) (publicKey aliceEphemeral)" by simp_all
  show ?thesis
    using valid(1-4) agree(1-3) bob(1) dir v a
    by (simp add: performX3DH_def acceptConversation_def bnd Some p i importKey_def Let_def
        deriveSharedSecret_def initializeBob_def)
qed


theorem x3dh_symmetry_witness:
  "performX3DH toyPlatform (toyKeyPair 3) (toyKeyPair 4)
     \<lparr>identityKey = [6], signedPreKey = [21], signedPreKeySignature = [],
       oneTimePreKey = Some [39]\<rparr> = Inr (replicate 16 85 @ replicate 16 100)
   \<and> fst (acceptConversation toyPlatform (\<lambda>u. [9]) ''c2'' 5 ''alice'' [12] ''signed-1''
            (Some ''onetime-0'') toyKms) = Inr ''c2''
   \<and> map_option (rootKey \<circ> ratchet)
        (sessions (snd (acceptConversation toyPlatform (\<lambda>u. [9]) ''c2'' 5 ''alice'' [12]
            ''signed-1'' (Some ''onetime-0'') toyKms)) ''c2'')
       = Some (replicate 16 85 @ replicate 16 100)
   \<and> performX3DH toyPlatform (toyKeyPair 3) (toyKeyPair 4)
     \<lparr>identityKey = [6], signedPreKey = [21], signedPreKeySignature = [],
       oneTimePreKey = None\<rparr> = Inr (replicate 16 185 @ replicate 16 88)
   \<and> map_option (rootKey \<circ> ratchet)
        (sessions (snd (acceptConversation toyPlatform (\<lambda>u. [9]) ''c2'' 5 ''alice'' [12]
            ''signed-1'' None toyKms)) ''c2'')
       = Some (replicate 16 185 @ replicate 16 88)"
proof -
  let ?b1 = "\<lparr>identityKey = [6], signedPreKey = [21], signedPreKeySignature = [],
               oneTimePreKey = Some [39]\<rparr>"
  let ?b2 = "\<lparr>identityKey = [6], signedPreKey = [21], signedPreKeySignature = [],
               oneTimePreKey = None\<rparr>"
  have p1: "poolKey toyKms (Some ''onetime-0'') = Some (toyKeyPair 13)"
    by (simp add: poolKey_def toyKms_def)
  have p2: "poolKey toyKms None = None"
    by (simp add: poolKey_def)
  have k: "preKeys toyKms ''signed-1'' = Some (toyKeyPair 7)"
    "identityKeyPair toyKms = Some (toyKeyPair 2)"
    by (simp_all add: toyKms_def)
  have v: "validX25519 toyPlatform (publicKey (toyKeyPair x))" for x
    by (simp add: toyKeyPair_def)
  have a: "x25519 toyPlatform (privateKey (toyKeyPair x)) (publicKey (toyKeyPair y))
      = x25519 toyPlatform (privateKey (toyKeyPair y)) (publicKey (toyKeyPair x))" for x y
    by (simp add: toyKeyPair_def)
  have vo1: "\<forall>otk. poolKey toyKms (Some ''onetime-0'') = Some otk \<longrightarrow>
      validX25519 toyPlatform (publicKey otk)"
    by (simp add: p1 toyKeyPair_def)
  have ao1: "\<forall>otk. poolKey toyKms (Some ''onetime-0'') = Some otk \<longrightarrow>
      x25519 toyPlatform (privateKey (toyKeyPair 4)) (publicKey otk)
        = x25519 toyPlatform (privateKey otk) (publicKey (toyKeyPair 4))"
    by (simp add: p1 toyKeyPair_def)
  have vo2: "\<forall>otk. poolKey toyKms None = Some otk \<longrightarrow>
      validX25519 toyPlatform (publicKey otk)"
    by (simp add: p2)
  have ao2: "\<forall>otk. poolKey toyKms None = Some otk \<longrightarrow>
      x25519 toyPlatform (privateKey (toyKeyPair 4)) (publicKey otk)
        = x25519 toyPlatform (privateKey otk) (publicKey (toyKeyPair 4))"
    by (simp add: p2)
  have d: "(\<lambda>u::string. [9::8 word]) ''alice'' = publicKey (toyKeyPair 3)"
    by (simp add: toyKeyPair_def)
  have b1: "?b1 = \<lparr> identityKey = publicKey (toyKeyPair 2), signedPreKey = publicKey (toyKeyPair 7),
        signedPreKeySignature = [],
        oneTimePreKey = map_option publicKey (poolKey toyKms (Some ''onetime-0'')) \<rparr>"
    by (simp add: p1 toyKeyPair_def)
  have b2: "?b2 = \<lparr> identityKey = publicKey (toyKeyPair 2), signedPreKey = publicKey (toyKeyPair 7),
        signedPreKeySignature = [],
        oneTimePreKey = map_option publicKey (poolKey toyKms None) \<rparr>"
    by (simp add: p2 toyKeyPair_def)
  have e: "publicKey (toyKeyPair 4) = [12]" by (simp add: toyKeyPair_def)
  have h1: "hkdf toyPlatform
      (x25519 toyPlatform (privateKey (toyKeyPair 3)) (publicKey (toyKeyPair 7))
       @ x25519 toyPlatform (privateKey (toyKeyPair 4)) (publicKey (toyKeyPair 2))
       @ x25519 toyPlatform (privateKey (toyKeyPair 4)) (publicKey (toyKeyPair 7))
       @ (case poolKey toyKms (Some ''onetime-0'') of None \<Rightarrow> []
          | Some otk \<Rightarrow> x25519 toyPlatform (privateKey (toyKeyPair 4)) (publicKey otk)))
      zeroBuffer32 (utf8Encode toyPlatform ''BuddyHunt X3DH'') 32
      = replicate 16 85 @ replicate 16 100"
    by (simp add: p1 toyKeyPair_def hkdf_def toyHkdf_def)
  have h2: "hkdf toyPlatform
      (x25519 toyPlatform (privateKey (toyKeyPair 3)) (publicKey (toyKeyPair 7))
       @ x25519 toyPlatform (privateKey (toyKeyPair 4)) (publicKey (toyKeyPair 2))
       @ x25519 toyPlatform (privateKey (toyKeyPair 4)) (publicKey (toyKeyPair 7))
       @ (case poolKey toyKms None of None \<Rightarrow> []
          | Some otk \<Rightarrow> x25519 toyPlatform (privateKey (toyKeyPair 4)) (publicKey otk)))
      zeroBuffer32 (utf8Encode toyPlatform ''BuddyHunt X3DH'') 32
      = replicate 16 185 @ replicate 16 88"
    by (simp add: p2 toyKeyPair_def hkdf_def toyHkdf_def)
  note w1 = x3dh_symmetry [where newId = "''c2''" and now = 5 and sig = "[]" and senderUserId = "''alice''",
      OF v v v v vo1 a a a ao1 k d b1, unfolded h1 e]
  note w2 = x3dh_symmetry [where newId = "''c2''" and now = 5 and sig = "[]" and senderUserId = "''alice''",
      OF v v v v vo2 a a a ao2 k d b2, unfolded h2 e]
  from w1 w2 show ?thesis by (elim exE conjE, hypsubst) (intro conjI; assumption)
qed


section \<open>A message whose tag does not verify\<close>





section \<open>The DH ratchet step\<close>

text \<open>
  C4 at a failing input. In the exchange of \<open>toyAlice\<close> and \<open>toyBob\<close> the responder has
  consumed the one message of the initiator's first chain (\<open>Nr = 1\<close>, empty cache) when
  the first message of the initiator's second chain arrives, with \<open>Pn = 1\<close>: no key of
  the old receiving chain is unconsumed. \<open>performDHRatchet\<close> sets \<open>Nr\<close> to 0 before it
  skips up to \<open>Pn\<close>, so it derives one key from the old chain's current position, caches
  it under the counter 0, and leaves \<open>Nr = 1\<close>. The rest of the step is as claimed:
  \<open>Pn\<close> is the old \<open>Ns\<close>, \<open>Ns\<close> is 0, and the new key pair and chains are in place.
\<close>

theorem dh_ratchet_resets_before_skipping:
  "sendTo toyPlatform [1] (toyKeyPair 11) ''hi'' (toyAlice, toyBob) = (Inr ''hi'', toyAlice1, toyBob1)
   \<and> sendTo toyPlatform [2] (toyKeyPair 17) ''yo'' (toyBob1, toyAlice1)
       = (Inr ''yo'', toyBob2, toyAlice2)
   \<and> header (fst (encrypt toyPlatform [3] ''ok'' toyAlice2))
       = \<lparr>hdr_dhPublicKey = [51], hdr_pn = 1, hdr_n = 0\<rparr>
   \<and> nr toyBob2 = 1
   \<and> skippedKeys toyBob2 = Map.empty
   \<and> messageKeyAt toyPlatform (chainKeyRecv toyBob2) 0 = replicate 32 9
   \<and> performDHRatchet toyPlatform (toyKeyPair 19) (importedKey [51])
        \<lparr>hdr_dhPublicKey = [51], hdr_pn = 1, hdr_n = 0\<rparr> toyBob2
       = (Inr (),
          \<lparr> rootKey = replicate 32 53, chainKeySend = replicate 32 182,
            chainKeyRecv = replicate 32 119, dhSend = toyKeyPair 19,
            dhRecv = Some (importedKey [51]),
            pn = 1, ns = 0, nr = 1, skippedKeys = [''0'' \<mapsto> replicate 32 9] \<rparr>)"
proof (intro conjI)
  show "sendTo toyPlatform [1] (toyKeyPair 11) ''hi'' (toyAlice, toyBob)
      = (Inr ''hi'', toyAlice1, toyBob1)" by (rule toy_exchange_1)
  show "sendTo toyPlatform [2] (toyKeyPair 17) ''yo'' (toyBob1, toyAlice1)
       = (Inr ''yo'', toyBob2, toyAlice2)" by (rule toy_exchange_2)
  show "header (fst (encrypt toyPlatform [3] ''ok'' toyAlice2))
       = \<lparr>hdr_dhPublicKey = [51], hdr_pn = 1, hdr_n = 0\<rparr>"
    by (simp only: toy_encrypt_3 EncryptedMessage.select_convs)
  show "nr toyBob2 = 1" by (simp add: toyBob2_def toyBob1_def)
  show "skippedKeys toyBob2 = Map.empty" by (simp add: toyBob2_def toyBob1_def)
  show "messageKeyAt toyPlatform (chainKeyRecv toyBob2) 0 = replicate 32 9"
    by (simp add: messageKeyAt_0 toyBob2_def toyBob1_def)
  show "performDHRatchet toyPlatform (toyKeyPair 19) (importedKey [51])
        \<lparr>hdr_dhPublicKey = [51], hdr_pn = 1, hdr_n = 0\<rparr> toyBob2
       = (Inr (),
          \<lparr> rootKey = replicate 32 53, chainKeySend = replicate 32 182,
            chainKeyRecv = replicate 32 119, dhSend = toyKeyPair 19,
            dhRecv = Some (importedKey [51]),
            pn = 1, ns = 0, nr = 1, skippedKeys = [''0'' \<mapsto> replicate 32 9] \<rparr>)"
    by (rule toy_ratchet_bob_2)
qed


text \<open>
  C7 at the same input. The header index of that message is 0 and the ratchet key is new,
  so \<open>decrypt\<close> runs the DH ratchet step and derives one key of the new receiving chain;
  it returns the plaintext and leaves \<open>Ns = 0\<close> but \<open>Nr = 2\<close>.
\<close>

theorem counters_after_dh_ratchet:
  "sendTo toyPlatform [1] (toyKeyPair 11) ''hi'' (toyAlice, toyBob) = (Inr ''hi'', toyAlice1, toyBob1)
   \<and> sendTo toyPlatform [2] (toyKeyPair 17) ''yo'' (toyBob1, toyAlice1)
       = (Inr ''yo'', toyBob2, toyAlice2)
   \<and> hdr_n (header (fst (encrypt toyPlatform [3] ''ok'' toyAlice2))) = 0
   \<and> hdr_dhPublicKey (header (fst (encrypt toyPlatform [3] ''ok'' toyAlice2))) = [51]
   \<and> dhRecv toyBob2 = Some (importedKey [15])
   \<and> needsRatchet
        (importedKey (hdr_dhPublicKey (header (fst (encrypt toyPlatform [3] ''ok'' toyAlice2)))))
        toyBob2
   \<and> fst (decrypt toyPlatform (toyKeyPair 19) (fst (encrypt toyPlatform [3] ''ok'' toyAlice2)) toyBob2)
       = Inr ''ok''
   \<and> ns (snd (decrypt toyPlatform (toyKeyPair 19) (fst (encrypt toyPlatform [3] ''ok'' toyAlice2))
                toyBob2)) = 0
   \<and> nr (snd (decrypt toyPlatform (toyKeyPair 19) (fst (encrypt toyPlatform [3] ''ok'' toyAlice2))
                toyBob2)) = 2"
proof (intro conjI)
  show "sendTo toyPlatform [1] (toyKeyPair 11) ''hi'' (toyAlice, toyBob)
      = (Inr ''hi'', toyAlice1, toyBob1)" by (rule toy_exchange_1)
  show "sendTo toyPlatform [2] (toyKeyPair 17) ''yo'' (toyBob1, toyAlice1)
       = (Inr ''yo'', toyBob2, toyAlice2)" by (rule toy_exchange_2)
  show "dhRecv toyBob2 = Some (importedKey [15])" by (simp add: toyBob2_def toyBob1_def)
qed (simp_all only: toy_encrypt_3 toy_decrypt_3, simp_all)


section \<open>A message that arrives late\<close>

text \<open>
  The cache is written and never read. What \<open>decrypt\<close> returns does not depend on the
  cache it starts from, the state it leaves depends on it in the cache only, and no entry
  is ever removed.
\<close>

lemma resolve_state_cases:
  "snd (resolveMessageKey c g m s) =
     (if \<not> validX25519 c (hdr_dhPublicKey (header m)) then s
      else if MAX_SKIP < hdr_pn (header m)
      then s\<lparr>pn := ns s, ns := 0, nr := 0,
             dhRecv := Some (importedKey (hdr_dhPublicKey (header m)))\<rparr>
      else if hdr_pn (header m) + MAX_SKIP < hdr_n (header m)
      then snd (performDHRatchet c g (importedKey (hdr_dhPublicKey (header m))) (header m) s)
      else (skipLoop c (hdr_n (header m))
              (snd (performDHRatchet c g (importedKey (hdr_dhPublicKey (header m))) (header m) s)))
             \<lparr>chainKeyRecv :=
                chainKeyAt c (ratchetChain c s (hdr_dhPublicKey (header m)))
                  (Suc (hdr_n (header m) - hdr_pn (header m))),
              nr := max (hdr_pn (header m)) (hdr_n (header m)) + 1\<rparr>)"
proof -
  let ?k = "importedKey (hdr_dhPublicKey (header m))"
  obtain r a where p: "performDHRatchet c g ?k (header m) s = (r, a)"
    by (cases "performDHRatchet c g ?k (header m) s")
  show ?thesis
    using resolve_ok [where c = c and m = m and g = g and s = s, OF _ _ _ p]
      performDHRatchet_chains [of "header m" c g "hdr_dhPublicKey (header m)" s]
    by (simp add: resolve_invalid resolve_pn_too_many resolve_n_too_many p not_less)
qed

lemma decrypt_ignores_cache:
  "fst (decrypt c g m (s\<lparr>skippedKeys := f\<rparr>)) = fst (decrypt c g m s)
   \<and> (snd (decrypt c g m (s\<lparr>skippedKeys := f\<rparr>)))\<lparr>skippedKeys := h\<rparr>
     = (snd (decrypt c g m s))\<lparr>skippedKeys := h\<rparr>"
proof
  show "fst (decrypt c g m (s\<lparr>skippedKeys := f\<rparr>)) = fst (decrypt c g m s)"
    by (simp add: decrypt_result ratchetChain_def)
  let ?k = "hdr_dhPublicKey (header m)"
  let ?t = "s\<lparr>skippedKeys := f\<rparr>"
  have ratchet: "(snd (performDHRatchet c g (importedKey ?k) (header m) ?t))\<lparr>skippedKeys := h\<rparr>
      = (snd (performDHRatchet c g (importedKey ?k) (header m) s))\<lparr>skippedKeys := h\<rparr>"
    if "hdr_pn (header m) \<le> MAX_SKIP"
    using performDHRatchet_counters [OF that, of c g "importedKey ?k" s]
      performDHRatchet_counters [OF that, of c g "importedKey ?k" ?t]
      performDHRatchet_chains [OF that, of c g ?k s]
      performDHRatchet_chains [OF that, of c g ?k ?t]
    by (intro RatchetState.equality)
       (simp_all add: ratchetChain_def ratchetRoot_def ratchetSendChain_def)
  have "(snd (resolveMessageKey c g m ?t))\<lparr>skippedKeys := h\<rparr>
      = (snd (resolveMessageKey c g m s))\<lparr>skippedKeys := h\<rparr>"
  proof (cases "validX25519 c ?k \<and> hdr_pn (header m) \<le> MAX_SKIP
      \<and> hdr_n (header m) \<le> hdr_pn (header m) + MAX_SKIP")
    case True
    then have v: "validX25519 c ?k" and le: "hdr_pn (header m) \<le> MAX_SKIP"
      and le2: "hdr_n (header m) \<le> hdr_pn (header m) + MAX_SKIP" by simp_all
    show ?thesis
      using resolve_ok_fields [OF v le le2, of g s] resolve_ok_fields [OF v le le2, of g ?t]
      by (intro RatchetState.equality)
         (simp_all add: ratchetChain_def ratchetRoot_def ratchetSendChain_def)
  next
    case False
    then show ?thesis
      using ratchet by (auto simp: resolve_state_cases not_le)
  qed
  then show "(snd (decrypt c g m ?t))\<lparr>skippedKeys := h\<rparr>
     = (snd (decrypt c g m s))\<lparr>skippedKeys := h\<rparr>"
    by (simp add: decrypt_state)
qed

lemma decrypt_cache_grows:
  "dom (skippedKeys s) \<subseteq> dom (skippedKeys (snd (decrypt c g m s)))"
proof -
  let ?k = "importedKey (hdr_dhPublicKey (header m))"
  let ?a = "snd (performDHRatchet c g ?k (header m) s)"
  have a: "dom (skippedKeys s) \<subseteq> dom (skippedKeys ?a)" if "hdr_pn (header m) \<le> MAX_SKIP"
    using skipLoop_cache_grows [of "s\<lparr>pn := ns s, ns := 0, nr := 0, dhRecv := Some ?k\<rparr>"
        c "hdr_pn (header m)"]
    by (simp add: performDHRatchet_ok [OF that])
  have b: "dom (skippedKeys ?a) \<subseteq> dom (skippedKeys (skipLoop c (hdr_n (header m)) ?a))"
    by (rule skipLoop_cache_grows)
  show ?thesis
    using a b by (auto simp: decrypt_state resolve_state_cases not_less)
qed

text \<open>
  C5 at a failing input. The initiator encrypts two messages in one chain and the
  responder receives the second first: \<open>decrypt\<close> caches the message key of position 0
  under the string \<open>''0''\<close> (the counter alone, without the ratchet key) and returns the
  second plaintext. The cached key opens the first message. When the first message
  arrives, \<open>decrypt\<close> does not look into the cache: it runs the DH ratchet step again,
  derives a key of the receiving chain it has just replaced, fails with
  \<open>AuthenticationFailure\<close>, and the cache still holds the entry.
\<close>

theorem late_message_not_resolved_from_cache:
  "encrypt toyPlatform [1] ''hi'' toyAlice
     = (\<lparr>header = \<lparr>hdr_dhPublicKey = [15], hdr_pn = 0, hdr_n = 0\<rparr>,
         ciphertext = [37, 189, 190], iv = [1]\<rparr>, toyAlice1)
   \<and> fst (encrypt toyPlatform [2] ''yo'' toyAlice1)
       = \<lparr>header = \<lparr>hdr_dhPublicKey = [15], hdr_pn = 0, hdr_n = 1\<rparr>,
          ciphertext = [41, 130, 120], iv = [2]\<rparr>
   \<and> decrypt toyPlatform (toyKeyPair 11)
        \<lparr>header = \<lparr>hdr_dhPublicKey = [15], hdr_pn = 0, hdr_n = 1\<rparr>,
          ciphertext = [41, 130, 120], iv = [2]\<rparr> toyBob
       = (Inr ''yo'', toyBobSkipped)
   \<and> skippedKeys toyBobSkipped ''0'' = Some (replicate 32 85)
   \<and> aesGcmOpen toyPlatform (replicate 32 85) [1] None [37, 189, 190]
       = Some (utf8Encode toyPlatform ''hi'')
   \<and> decrypt toyPlatform (toyKeyPair 19)
        \<lparr>header = \<lparr>hdr_dhPublicKey = [15], hdr_pn = 0, hdr_n = 0\<rparr>,
          ciphertext = [37, 189, 190], iv = [1]\<rparr> toyBobSkipped
       = (Inl AuthenticationFailure,
          \<lparr> rootKey = replicate 32 229, chainKeySend = replicate 32 206,
            chainKeyRecv = replicate 32 63, dhSend = toyKeyPair 19,
            dhRecv = Some (importedKey [15]),
            pn = 0, ns = 0, nr = 1, skippedKeys = [''0'' \<mapsto> replicate 32 85] \<rparr>)"
proof (intro conjI)
  show "encrypt toyPlatform [1] ''hi'' toyAlice
     = (\<lparr>header = \<lparr>hdr_dhPublicKey = [15], hdr_pn = 0, hdr_n = 0\<rparr>,
         ciphertext = [37, 189, 190], iv = [1]\<rparr>, toyAlice1)" by (rule toy_encrypt_1)
  show "fst (encrypt toyPlatform [2] ''yo'' toyAlice1)
       = \<lparr>header = \<lparr>hdr_dhPublicKey = [15], hdr_pn = 0, hdr_n = 1\<rparr>,
          ciphertext = [41, 130, 120], iv = [2]\<rparr>" by (rule toy_encrypt_1b)
  show "decrypt toyPlatform (toyKeyPair 11)
        \<lparr>header = \<lparr>hdr_dhPublicKey = [15], hdr_pn = 0, hdr_n = 1\<rparr>,
          ciphertext = [41, 130, 120], iv = [2]\<rparr> toyBob
       = (Inr ''yo'', toyBobSkipped)" by (rule toy_decrypt_skipping)
  show "skippedKeys toyBobSkipped ''0'' = Some (replicate 32 85)"
    by (simp add: toyBobSkipped_def)
  show "aesGcmOpen toyPlatform (replicate 32 85) [1] None [37, 189, 190]
       = Some (utf8Encode toyPlatform ''hi'')"
    by (simp add: toyOpen_def adTag_def)
  let ?a = "\<lparr> rootKey = replicate 32 229, chainKeySend = replicate 32 206,
            chainKeyRecv = replicate 32 187, dhSend = toyKeyPair 19,
            dhRecv = Some (importedKey [15]),
            pn = 0, ns = 0, nr = 0, skippedKeys = [''0'' \<mapsto> replicate 32 85] \<rparr>"
  have rat: "performDHRatchet toyPlatform (toyKeyPair 19) (importedKey [15])
      \<lparr>hdr_dhPublicKey = [15], hdr_pn = 0, hdr_n = 0\<rparr> toyBobSkipped = (Inr (), ?a)"
    by (simp add: performDHRatchet_ok MAX_SKIP_def skipLoop_rec toyBobSkipped_def toyKeyPair_def)
  show "decrypt toyPlatform (toyKeyPair 19)
        \<lparr>header = \<lparr>hdr_dhPublicKey = [15], hdr_pn = 0, hdr_n = 0\<rparr>,
          ciphertext = [37, 189, 190], iv = [1]\<rparr> toyBobSkipped
       = (Inl AuthenticationFailure,
          \<lparr> rootKey = replicate 32 229, chainKeySend = replicate 32 206,
            chainKeyRecv = replicate 32 63, dhSend = toyKeyPair 19,
            dhRecv = Some (importedKey [15]),
            pn = 0, ns = 0, nr = 1, skippedKeys = [''0'' \<mapsto> replicate 32 85] \<rparr>)"
    by (subst toy_decrypt_in_order [where x = 15 and r = "Inr ()" and a = ?a])
       (simp_all add: rat toyOpen_def adTag_def)
qed


section \<open>Messages in turn\<close>

text \<open>
  What does hold of the round trip. The sessions that \<open>initializeAlice\<close> and
  \<open>initializeBob\<close> return from one secret are such that the responder awaits the
  initiator's first message. When \<open>x\<close> awaits the first message of \<open>y\<close>, that message is
  decrypted to its plaintext, and afterwards \<open>y\<close> awaits the first message of \<open>x\<close>. The
  platform is assumed to open what it sealed under the message key, to decode what it
  encoded, to accept the public keys and to agree on both sides of a pairing.
\<close>

lemma awaitsRatchet_initial:
  assumes "validX25519 c (publicKey bobKeys)" and "validX25519 c (publicKey aliceKeys)"
    and "x25519 c (privateKey aliceKeys) (publicKey bobKeys)
           = x25519 c (privateKey bobKeys) (publicKey aliceKeys)"
  shows "\<exists>alice. initializeAlice c aliceKeys sk (publicKey bobKeys) = Inr alice
     \<and> awaitsRatchet c alice (initializeBob sk bobKeys)"
  using assms
  by (simp add: initializeAlice_state [OF assms(1)] awaitsRatchet_def initializeBob_def)

lemma round_trip_new_chain:
  assumes sync: "awaitsRatchet c y x"
    and opens: "aesGcmOpen c (messageKeyAt c (chainKeySend y) 0) nonce None
        (aesGcmSeal c (messageKeyAt c (chainKeySend y) 0) nonce None (utf8Encode c p))
        = Some (utf8Encode c p)"
    and codec: "utf8Decode c (utf8Encode c p) = p"
    and fresh: "validX25519 c (publicKey g)"
    and agree: "x25519 c (privateKey (dhSend y)) (publicKey g)
        = x25519 c (privateKey g) (publicKey (dhSend y))"
  shows "fst (sendTo c nonce g p (y, x)) = Inr p
   \<and> awaitsRatchet c (snd (snd (sendTo c nonce g p (y, x)))) (fst (snd (sendTo c nonce g p (y, x))))"
proof
  let ?m = "fst (encrypt c nonce p y)"
  let ?k = "publicKey (dhSend y)"
  from sync have y: "ns y = 0" "pn y \<le> MAX_SKIP" and x: "ns x \<le> MAX_SKIP"
    and v: "validX25519 c ?k"
    and kdf: "deriveRootChainKeys c (rootKey x) (x25519 c (privateKey (dhSend x)) ?k)
         = (rootKey y, chainKeySend y)"
    by (simp_all add: awaitsRatchet_def)
  have chain: "ratchetChain c x ?k = chainKeySend y" by (simp add: ratchetChain_def kdf)
  have hv: "validX25519 c (hdr_dhPublicKey (header ?m))" by (simp add: encrypt_header v)
  have le: "hdr_pn (header ?m) \<le> MAX_SKIP" by (simp add: encrypt_header y)
  have le2: "hdr_n (header ?m) \<le> hdr_pn (header ?m) + MAX_SKIP" by (simp add: encrypt_header y)
  show "fst (sendTo c nonce g p (y, x)) = Inr p"
    using v y opens codec
    by (simp add: sendTo_parts decrypt_result encrypt_message chain)
  note f = resolve_ok_fields [OF hv le le2, of g x]
  have r: "rootKey (snd (snd (sendTo c nonce g p (y, x)))) = ratchetRoot c g x ?k"
    "chainKeySend (snd (snd (sendTo c nonce g p (y, x)))) = ratchetSendChain c g x ?k"
    "dhSend (snd (snd (sendTo c nonce g p (y, x)))) = g"
    "pn (snd (snd (sendTo c nonce g p (y, x)))) = ns x"
    "ns (snd (snd (sendTo c nonce g p (y, x)))) = 0"
    using f by (simp_all add: sendTo_parts decrypt_state encrypt_header)
  show "awaitsRatchet c (snd (snd (sendTo c nonce g p (y, x)))) (fst (snd (sendTo c nonce g p (y, x))))"
    unfolding awaitsRatchet_def r
    using x y fresh agree
    by (simp add: sendTo_parts encrypt_frame ratchetRoot_def ratchetSendChain_def kdf
        prod_eq_iff MAX_SKIP_def)
qed


section \<open>Messages in a row\<close>

text \<open>
  The sender's side of a run of sends, and the receiver's side: every message whose key
  the platform accepts and whose \<open>Pn\<close> is at most \<open>MAX_SKIP\<close> makes the receiver run the
  DH ratchet step.
\<close>

lemma sendMany_sender:
  "dhSend (fst (sendMany c nonce g p k pair)) = dhSend (fst pair)
   \<and> dhRecv (fst (sendMany c nonce g p k pair)) = dhRecv (fst pair)
   \<and> pn (fst (sendMany c nonce g p k pair)) = pn (fst pair)
   \<and> ns (fst (sendMany c nonce g p k pair)) = ns (fst pair) + k"
proof (induction k arbitrary: pair)
  case 0
  show ?case by simp
next
  case (Suc k)
  show ?case
    using Suc.IH [of "snd (sendTo c nonce g p pair)"]
    by (simp add: sendTo_parts encrypt_frame)
qed

lemma resolve_ratchet_frame:
  assumes "validX25519 c (hdr_dhPublicKey (header m))" and "hdr_pn (header m) \<le> MAX_SKIP"
  shows "dhSend (snd (resolveMessageKey c g m s)) = g
   \<and> pn (snd (resolveMessageKey c g m s)) = ns s
   \<and> ns (snd (resolveMessageKey c g m s)) = 0"
proof (cases "hdr_pn (header m) + MAX_SKIP < hdr_n (header m)")
  case True
  from resolve_n_too_many [OF assms True, of g s]
    performDHRatchet_counters [OF assms(2), of c g "importedKey (hdr_dhPublicKey (header m))" s]
  show ?thesis by simp
next
  case False
  then have "hdr_n (header m) \<le> hdr_pn (header m) + MAX_SKIP" by simp
  from resolve_ok_fields [OF assms this, of g s] show ?thesis by simp
qed

lemma deliver_receiver:
  assumes "validX25519 c (publicKey (dhSend a))" and "pn a \<le> MAX_SKIP"
  shows "dhSend (snd (snd (sendTo c nonce g p (a, b)))) = g
   \<and> pn (snd (snd (sendTo c nonce g p (a, b)))) = ns b
   \<and> ns (snd (snd (sendTo c nonce g p (a, b)))) = 0"
  using resolve_ratchet_frame [of c "fst (encrypt c nonce p a)" g b] assms
  by (simp add: sendTo_parts decrypt_state encrypt_header)

lemma sendMany_receiver:
  assumes "validX25519 c (publicKey (dhSend a))" and "pn a \<le> MAX_SKIP" and "ns b = 0"
    and "0 < k"
  shows "dhSend (snd (sendMany c nonce g p k (a, b))) = g
   \<and> pn (snd (sendMany c nonce g p k (a, b))) = 0
   \<and> ns (snd (sendMany c nonce g p k (a, b))) = 0"
  using assms
proof (induction k arbitrary: a b)
  case 0
  then show ?case by simp
next
  case (Suc k)
  let ?a1 = "fst (snd (sendTo c nonce g p (a, b)))"
  let ?b1 = "snd (snd (sendTo c nonce g p (a, b)))"
  have a1: "dhSend ?a1 = dhSend a" "pn ?a1 = pn a"
    by (simp_all add: sendTo_parts encrypt_frame)
  from deliver_receiver [OF Suc.prems(1,2), of nonce g p b] Suc.prems(3)
  have b1: "dhSend ?b1 = g" "pn ?b1 = 0" "ns ?b1 = 0" by simp_all
  show ?case
  proof (cases k)
    case 0
    then show ?thesis by (simp add: b1)
  next
    case (Suc k')
    have "dhSend (snd (sendMany c nonce g p k (?a1, ?b1))) = g
      \<and> pn (snd (sendMany c nonce g p k (?a1, ?b1))) = 0
      \<and> ns (snd (sendMany c nonce g p k (?a1, ?b1))) = 0"
      by (rule Suc.IH) (simp_all add: a1 b1 Suc.prems Suc)
    then show ?thesis by simp
  qed
qed

text \<open>
  On the small platform the second message of a chain, delivered in order, already fails:
  the responder runs the DH ratchet step again and replaces the receiving chain that the
  message was encrypted for.
\<close>

lemma second_message_of_chain_fails:
  "sendTo toyPlatform [1] (toyKeyPair 11) ''hi'' (toyAlice, toyBob) = (Inr ''hi'', toyAlice1, toyBob1)
   \<and> fst (sendTo toyPlatform [2] (toyKeyPair 19) ''yo'' (toyAlice1, toyBob1))
       = Inl AuthenticationFailure"
proof
  show "sendTo toyPlatform [1] (toyKeyPair 11) ''hi'' (toyAlice, toyBob)
      = (Inr ''hi'', toyAlice1, toyBob1)" by (rule toy_exchange_1)
  have "fst (decrypt toyPlatform (toyKeyPair 19)
        \<lparr>header = \<lparr>hdr_dhPublicKey = [15], hdr_pn = 0, hdr_n = 1\<rparr>,
          ciphertext = [41, 130, 120], iv = [2]\<rparr> toyBob1) = Inl AuthenticationFailure"
    by (simp add: decrypt_result MAX_SKIP_def ratchetChain_def messageKeyAt_Suc messageKeyAt_0
        nextChainKey_def toyBob1_def toyKeyPair_def toyOpen_def adTag_def)
  then show "fst (sendTo toyPlatform [2] (toyKeyPair 19) ''yo'' (toyAlice1, toyBob1))
       = Inl AuthenticationFailure"
    by (simp add: sendTo_parts toy_encrypt_1b)
qed

section \<open>A long sending chain\<close>

text \<open>
  C2 at a failing input. The initiator sends \<open>k\<close> messages, each passed to the
  responder's \<open>decrypt\<close> at once, with \<open>k\<close> greater than \<open>MAX_SKIP\<close>; the responder answers
  once and the answer is passed to the initiator's \<open>decrypt\<close>, whose DH ratchet step makes
  the initiator's previous-chain length \<open>k\<close>; then the initiator sends again. The
  responder's DH ratchet step sets \<open>Nr\<close> to 0 before it skips up to the header's
  \<open>Pn = k\<close>, so \<open>decrypt\<close> fails with \<open>SkippedTooMany\<close> although nothing was lost or
  reordered. The platform is assumed to accept the public keys.
\<close>

theorem long_chain_breaks_round_trip:
  assumes valid: "validX25519 c (publicKey bobKeys)" "validX25519 c (publicKey aliceKeys)"
      "validX25519 c (publicKey g1)" "validX25519 c (publicKey g2)"
    and long: "MAX_SKIP < k"
  shows "\<exists>alice0. initializeAlice c aliceKeys sk (publicKey bobKeys) = Inr alice0
     \<and> (let run1 = sendMany c nonce1 g1 p1 k (alice0, initializeBob sk bobKeys);
             run2 = sendTo c nonce2 g2 p2 (snd run1, fst run1);
             run3 = sendTo c nonce3 g3 p3 (snd (snd run2), fst (snd run2))
         in fst run3 = Inl SkippedTooMany)"
proof -
  let ?alice0 = "\<lparr> rootKey = fst (deriveRootChainKeys c sk
                     (x25519 c (privateKey aliceKeys) (publicKey bobKeys))),
           chainKeySend = snd (deriveRootChainKeys c sk
                     (x25519 c (privateKey aliceKeys) (publicKey bobKeys))),
           chainKeyRecv = zeroBuffer32, dhSend = aliceKeys,
           dhRecv = Some (importedKey (publicKey bobKeys)),
           pn = 0, ns = 0, nr = 0, skippedKeys = Map.empty \<rparr>"
  let ?bob0 = "initializeBob sk bobKeys"
  let ?run1 = "sendMany c nonce1 g1 p1 k (?alice0, ?bob0)"
  let ?a1 = "fst ?run1" and ?b1 = "snd ?run1"
  let ?run2 = "sendTo c nonce2 g2 p2 (?b1, ?a1)"
  let ?b2 = "fst (snd ?run2)" and ?a2 = "snd (snd ?run2)"
  let ?m3 = "fst (encrypt c nonce3 p3 ?a2)"
  have init: "initializeAlice c aliceKeys sk (publicKey bobKeys) = Inr ?alice0"
    by (rule initializeAlice_state [OF valid(1)])
  have kpos: "0 < k" using long by simp
  from sendMany_sender [of c nonce1 g1 p1 k "(?alice0, ?bob0)"]
  have a1: "dhSend ?a1 = aliceKeys" "pn ?a1 = 0" "ns ?a1 = k" by simp_all
  have "dhSend (snd (sendMany c nonce1 g1 p1 k (?alice0, ?bob0))) = g1
   \<and> pn (snd (sendMany c nonce1 g1 p1 k (?alice0, ?bob0))) = 0
   \<and> ns (snd (sendMany c nonce1 g1 p1 k (?alice0, ?bob0))) = 0"
    by (rule sendMany_receiver) (simp_all add: valid kpos initializeBob_def)
  then have b1: "dhSend ?b1 = g1" "pn ?b1 = 0" by simp_all
  have "dhSend (snd (snd (sendTo c nonce2 g2 p2 (?b1, ?a1)))) = g2
   \<and> pn (snd (snd (sendTo c nonce2 g2 p2 (?b1, ?a1)))) = ns ?a1
   \<and> ns (snd (snd (sendTo c nonce2 g2 p2 (?b1, ?a1)))) = 0"
    by (rule deliver_receiver) (simp_all add: b1 valid)
  then have a2: "dhSend ?a2 = g2" "pn ?a2 = k"
    by (simp_all only: a1)
  have hdr: "header ?m3 = \<lparr>hdr_dhPublicKey = publicKey g2, hdr_pn = k, hdr_n = ns ?a2\<rparr>"
    by (simp only: encrypt_header a2)
  have v: "validX25519 c (hdr_dhPublicKey (header ?m3))" by (simp add: hdr valid)
  have big: "MAX_SKIP < hdr_pn (header ?m3)" using long by (simp add: hdr)
  from resolve_pn_too_many [OF v big, of g3 ?b2]
  have "fst (decrypt c g3 ?m3 ?b2) = Inl SkippedTooMany"
    by (simp add: decrypt_unresolved)
  then have "fst (sendTo c nonce3 g3 p3 (?a2, ?b2)) = Inl SkippedTooMany"
    by (simp only: sendTo_parts fst_conv snd_conv)
  with init show ?thesis by (simp only: Let_def fst_conv snd_conv) blast
qed

theorem long_chain_breaks_round_trip_witness:
  "initializeAlice toyPlatform (toyKeyPair 5) (replicate 32 9) (publicKey (toyKeyPair 7)) = Inr toyAlice
   \<and> initializeBob (replicate 32 9) (toyKeyPair 7) = toyBob
   \<and> fst (sendTo toyPlatform [3] (toyKeyPair 19) ''ok''
          (snd (snd (sendTo toyPlatform [2] (toyKeyPair 17) ''yo''
                  (snd (sendMany toyPlatform [1] (toyKeyPair 11) ''hi'' 1001 (toyAlice, toyBob)),
                   fst (sendMany toyPlatform [1] (toyKeyPair 11) ''hi'' 1001 (toyAlice, toyBob))))),
           fst (snd (sendTo toyPlatform [2] (toyKeyPair 17) ''yo''
                  (snd (sendMany toyPlatform [1] (toyKeyPair 11) ''hi'' 1001 (toyAlice, toyBob)),
                   fst (sendMany toyPlatform [1] (toyKeyPair 11) ''hi'' 1001 (toyAlice, toyBob)))))))
       = Inl SkippedTooMany"
proof -
  have v: "validX25519 toyPlatform (publicKey (toyKeyPair x))" for x
    by (simp add: toyKeyPair_def)
  have long: "MAX_SKIP < 1001" by (simp add: MAX_SKIP_def)
  note w = long_chain_breaks_round_trip [where c = toyPlatform and sk = "replicate 32 9"
      and ?nonce1.0 = "[1]" and ?p1.0 = "''hi''" and ?nonce2.0 = "[2]" and ?p2.0 = "''yo''"
      and ?nonce3.0 = "[3]" and ?p3.0 = "''ok''" and ?g3.0 = "toyKeyPair 19"
      and bobKeys = "toyKeyPair 7" and aliceKeys = "toyKeyPair 5"
      and ?g1.0 = "toyKeyPair 11" and ?g2.0 = "toyKeyPair 17",
      OF v v v v long, unfolded toyAlice_init Let_def]
  from w show ?thesis by (simp add: toyAlice_init toyBob_def)
qed

end
